theory Spec2Isabelle
  imports Main "HOL-Library.Word" "HOL-Library.Product_Lexorder" "HOL-Library.Sublist"
begin

unbundle bit_operations_syntax

section \<open>Shared types\<close>

text \<open>
  Modelled from the spec: \<open>Timestamp\<close> (base/Timestamp.h is not among the sources) is a
  signed microsecond count with a total order and total arithmetic; it is an \<open>int\<close> here.
  Objects reached through raw pointers (\<open>Timer *\<close>, \<open>Channel *\<close>) live in a store indexed
  by their address; \<open>std::set\<close> and \<open>std::map\<close> compare pointers by address.
\<close>

type_synonym Timestamp = int
type_synonym addr = nat

text \<open>
  Modelled from the spec: \<open>EventLoop::abortNotInLoopThread\<close> (EventLoop.cpp is not among
  the sources) aborts the process; \<open>Abort\<close> is that outcome. Calling an empty
  \<open>std::function\<close> throws \<open>std::bad_function_call\<close>. Log statements are left out.
\<close>

datatype Error = Abort | BadFunctionCall

section \<open>Timer (net/Timer.h, net/Timer.cpp)\<close>

text \<open>
  The \<open>int64_t\<close> members are unbounded integers: the code compares \<open>m_repeatCount\<close> with
  \<open>-1\<close> and \<open>0\<close>, decrements it and adds \<open>m_interval\<close> to the expiration; no property below
  depends on wrap-around. \<open>m_callback\<close> is a label naming the user's functor.
\<close>

record Timer =
  m_callback :: nat
  m_expiration :: Timestamp
  m_interval :: int
  m_repeatCount :: int
  m_sequence :: int
  m_canceled :: bool

text \<open>\<open>Timer::run\<close>: the updated timer and the callbacks it invoked.\<close>

definition Timer_run :: "Timer \<Rightarrow> Timer \<times> nat list" where
  "Timer_run t =
     (if m_canceled t then (t, [])
      else if m_repeatCount t \<noteq> - 1 then
        (let t1 = t\<lparr>m_repeatCount := m_repeatCount t - 1\<rparr> in
         if m_repeatCount t1 = 0 then (t1, [m_callback t])
         else (t1\<lparr>m_expiration := m_expiration t1 + m_interval t1\<rparr>, [m_callback t]))
      else (t\<lparr>m_expiration := m_expiration t + m_interval t\<rparr>, [m_callback t]))"

section \<open>TimerQueue (net/TimerQueue.h, net/TimerQueue.cpp)\<close>

text \<open>
  \<open>Entry\<close> is \<open>std::pair<Timestamp, Timer *>\<close> and \<open>TimerList\<close> is \<open>std::set<Entry>\<close>: the set
  is the strictly increasing list of its entries under the lexicographic order of the pair
  (timestamp first, then the pointer's address). \<open>timerStore\<close> holds the \<open>Timer\<close> objects
  the entries point to and \<open>s_numCreated\<close> is the static counter of \<open>Timer\<close>.
\<close>

type_synonym Entry = "Timestamp \<times> addr"

record TimerQueue =
  m_timers :: "Entry list"
  timerStore :: "addr \<Rightarrow> Timer"
  s_numCreated :: int

text \<open>\<open>std::set::insert\<close>: an element already present is not inserted again.\<close>

definition set_insert :: "Entry \<Rightarrow> Entry list \<Rightarrow> Entry list" where
  "set_insert e es = (if e \<in> set es then es else insort e es)"

text \<open>\<open>TimerQueue::insert\<close>: the key is the timer's expiration at the time of the call.\<close>

definition insert_timer :: "bool \<Rightarrow> addr \<Rightarrow> TimerQueue \<Rightarrow> Error + TimerQueue" where
  "insert_timer inLoopThread p q =
     (if \<not> inLoopThread then Inl Abort
      else Inr (q\<lparr>m_timers := set_insert (m_expiration (timerStore q p), p) (m_timers q)\<rparr>))"

definition addTimerInLoop :: "bool \<Rightarrow> addr \<Rightarrow> TimerQueue \<Rightarrow> Error + TimerQueue" where
  "addTimerInLoop inLoopThread p q =
     (if \<not> inLoopThread then Inl Abort else insert_timer inLoopThread p q)"

text \<open>
  The two constructors of \<open>Timer\<close>. Both take the next sequence number; the one without a
  repeat count sets \<open>m_repeatCount\<close> to \<open>-1\<close>.
\<close>

definition Timer_new4 :: "nat \<Rightarrow> Timestamp \<Rightarrow> int \<Rightarrow> int \<Rightarrow> int \<Rightarrow> Timer" where
  "Timer_new4 cb when interval repeatCount seq =
     \<lparr>m_callback = cb, m_expiration = when, m_interval = interval,
      m_repeatCount = repeatCount, m_sequence = seq, m_canceled = False\<rparr>"

definition Timer_new3 :: "nat \<Rightarrow> Timestamp \<Rightarrow> int \<Rightarrow> int \<Rightarrow> Timer" where
  "Timer_new3 cb when interval seq =
     \<lparr>m_callback = cb, m_expiration = when, m_interval = interval,
      m_repeatCount = - 1, m_sequence = seq, m_canceled = False\<rparr>"

text \<open>
  \<open>TimerQueue::addTimer\<close>, called in the loop thread (where \<open>runInLoop\<close> runs
  \<open>addTimerInLoop\<close> at once). \<open>p\<close> is the address \<open>new Timer\<close> returned. The overload taking
  \<open>const TimerCallback &\<close> builds the timer from three arguments, so its \<open>repeatCount\<close>
  parameter is not used; the overload taking \<open>TimerCallback &&\<close> passes all four.
\<close>

definition addTimer_const :: "addr \<Rightarrow> nat \<Rightarrow> Timestamp \<Rightarrow> int \<Rightarrow> int \<Rightarrow> TimerQueue \<Rightarrow> Error + TimerQueue" where
  "addTimer_const p cb when interval repeatCount q =
     (let seq = s_numCreated q + 1 in
      addTimerInLoop True p
        (q\<lparr>timerStore := (timerStore q)(p := Timer_new3 cb when interval seq),
           s_numCreated := seq\<rparr>))"

definition addTimer_move :: "addr \<Rightarrow> nat \<Rightarrow> Timestamp \<Rightarrow> int \<Rightarrow> int \<Rightarrow> TimerQueue \<Rightarrow> Error + TimerQueue" where
  "addTimer_move p cb when interval repeatCount q =
     (let seq = s_numCreated q + 1 in
      addTimerInLoop True p
        (q\<lparr>timerStore := (timerStore q)(p := Timer_new4 cb when interval repeatCount seq),
           s_numCreated := seq\<rparr>))"

text \<open>
  The loop of \<open>TimerQueue::doTimer\<close> over the entries from \<open>begin()\<close>: the remaining
  entries, the store and the addresses of the timers whose callback ran, in order. The test
  reads the expiration of the timer the entry points to, not the entry's key; an expired
  timer is run and its entry erased when its repeat count is 0, kept otherwise; the first
  timer that is not expired ends the loop.
\<close>

fun doTimer_loop :: "Timestamp \<Rightarrow> Entry list \<Rightarrow> (addr \<Rightarrow> Timer) \<Rightarrow> Entry list \<times> (addr \<Rightarrow> Timer) \<times> addr list" where
  "doTimer_loop now [] st = ([], st, [])"
| "doTimer_loop now ((k, p) # es) st =
     (if m_expiration (st p) \<le> now then
        (let r = Timer_run (st p);
             st1 = st(p := fst r);
             fired = (if snd r = [] then [] else [p]);
             rest = doTimer_loop now es st1
         in if m_repeatCount (fst r) = 0
            then (fst rest, fst (snd rest), fired @ snd (snd rest))
            else ((k, p) # fst rest, fst (snd rest), fired @ snd (snd rest)))
      else ((k, p) # es, st, []))"

text \<open>\<open>TimerQueue::doTimer\<close>; \<open>now\<close> is the value of \<open>Timestamp::now()\<close>.\<close>

definition doTimer :: "bool \<Rightarrow> Timestamp \<Rightarrow> TimerQueue \<Rightarrow> Error + (TimerQueue \<times> addr list)" where
  "doTimer inLoopThread now q =
     (if \<not> inLoopThread then Inl Abort
      else (let r = doTimer_loop now (m_timers q) (timerStore q)
            in Inr (q\<lparr>m_timers := fst r, timerStore := fst (snd r)\<rparr>, snd (snd r))))"

section \<open>Channel (net/Channel.h, Channel.cpp)\<close>

text \<open>
  The event bits of base/Platform.h: the values \<open>poll.h\<close> gives \<open>POLLIN\<close>, \<open>POLLPRI\<close>,
  \<open>POLLOUT\<close>, \<open>POLLERR\<close>, \<open>POLLHUP\<close>, \<open>POLLNVAL\<close> and \<open>POLLRDHUP\<close> on Linux, which are
  also the values the header defines itself under \<open>WIN32\<close>.
\<close>

definition XPOLLIN :: "32 word" where "XPOLLIN = 1"
definition XPOLLPRI :: "32 word" where "XPOLLPRI = 2"
definition XPOLLOUT :: "32 word" where "XPOLLOUT = 4"
definition XPOLLERR :: "32 word" where "XPOLLERR = 8"
definition XPOLLHUP :: "32 word" where "XPOLLHUP = 16"
definition XPOLLNVAL :: "32 word" where "XPOLLNVAL = 32"
definition XPOLLRDHUP :: "32 word" where "XPOLLRDHUP = 8192"

definition kNoneEvent :: "32 word" where "kNoneEvent = 0"
definition kReadEvent :: "32 word" where "kReadEvent = XPOLLIN OR XPOLLPRI"
definition kWriteEvent :: "32 word" where "kWriteEvent = XPOLLOUT"

text \<open>
  A \<open>Channel\<close>: the four \<open>std::function\<close> members are modelled by whether they hold a
  target. \<open>m_loop\<close> is left out: the loop is the one whose poller is modelled below.
\<close>

record Channel =
  m_fd :: int
  m_events :: "32 word"
  m_revents :: "32 word"
  m_index :: int
  m_readCallback :: bool
  m_writeCallback :: bool
  m_closeCallback :: bool
  m_errorCallback :: bool

text \<open>The constructor \<open>Channel(loop, fd)\<close>.\<close>

definition Channel_new :: "int \<Rightarrow> Channel" where
  "Channel_new fd =
     \<lparr>m_fd = fd, m_events = 0, m_revents = 0, m_index = - 1,
      m_readCallback = False, m_writeCallback = False,
      m_closeCallback = False, m_errorCallback = False\<rparr>"

definition isNoneEvent :: "Channel \<Rightarrow> bool" where
  "isNoneEvent c = (m_events c = kNoneEvent)"

definition isWriting :: "Channel \<Rightarrow> bool" where
  "isWriting c = (m_events c AND kWriteEvent \<noteq> 0)"

text \<open>
  \<open>Channel::handleEvent\<close>: the callbacks it invokes, in order. \<open>m_revents\<close> is written by
  the poller only, so it is the same value in all four tests.
\<close>

datatype ChannelCall = CallClose | CallError | CallRead Timestamp | CallWrite

definition handleEvent :: "Channel \<Rightarrow> Timestamp \<Rightarrow> ChannelCall list" where
  "handleEvent c receiveTime =
     (if m_revents c AND XPOLLHUP \<noteq> 0 \<and> \<not> (m_revents c AND XPOLLIN \<noteq> 0)
      then (if m_closeCallback c then [CallClose] else []) else []) @
     (if m_revents c AND (XPOLLERR OR XPOLLNVAL) \<noteq> 0
      then (if m_errorCallback c then [CallError] else []) else []) @
     (if m_revents c AND (XPOLLIN OR XPOLLPRI OR XPOLLRDHUP) \<noteq> 0
      then (if m_readCallback c then [CallRead receiveTime] else []) else []) @
     (if m_revents c AND XPOLLOUT \<noteq> 0
      then (if m_writeCallback c then [CallWrite] else []) else [])"

section \<open>SelectPoller (SelectPoller.h, SelectPoller.cpp)\<close>

definition kNew :: int where "kNew = - 1"
definition kAdded :: int where "kAdded = 1"
definition kDeleted :: int where "kDeleted = 2"

definition XEPOLL_CTL_ADD :: int where "XEPOLL_CTL_ADD = 1"
definition XEPOLL_CTL_DEL :: int where "XEPOLL_CTL_DEL = 2"
definition XEPOLL_CTL_MOD :: int where "XEPOLL_CTL_MOD = 3"

text \<open>
  \<open>m_channels\<close> is the \<open>std::map<int, Channel *>\<close> from fd to channel and \<open>m_events_vec\<close>
  the \<open>std::vector<epoll_event>\<close> member \<open>m_events\<close> (the events and \<open>data.ptr\<close> of each
  element). The channels themselves live in a store \<open>addr \<Rightarrow> Channel\<close>.
\<close>

record SelectPoller =
  m_channels :: "int \<rightharpoonup> addr"
  m_events_vec :: "(32 word \<times> addr) list"

text \<open>The two searches of \<open>SelectPoller::update\<close>: \<open>None\<close> when no element points to the channel.\<close>

fun erase_first :: "addr \<Rightarrow> (32 word \<times> addr) list \<Rightarrow> (32 word \<times> addr) list option" where
  "erase_first ch [] = None"
| "erase_first ch ((ev, p) # xs) =
     (if p = ch then Some xs
      else (case erase_first ch xs of None \<Rightarrow> None | Some ys \<Rightarrow> Some ((ev, p) # ys)))"

fun modify_first :: "addr \<Rightarrow> 32 word \<Rightarrow> (32 word \<times> addr) list \<Rightarrow> (32 word \<times> addr) list option" where
  "modify_first ch new [] = None"
| "modify_first ch new ((ev, p) # xs) =
     (if p = ch then Some ((new, p) # xs)
      else (case modify_first ch new xs of None \<Rightarrow> None | Some ys \<Rightarrow> Some ((ev, p) # ys)))"

definition SelectPoller_update :: "int \<Rightarrow> addr \<Rightarrow> SelectPoller \<Rightarrow> (addr \<Rightarrow> Channel) \<Rightarrow> bool \<times> SelectPoller" where
  "SelectPoller_update operation ch p st =
     (if operation = XEPOLL_CTL_ADD
      then (True, p\<lparr>m_events_vec := m_events_vec p @ [(m_events (st ch), ch)]\<rparr>)
      else if operation = XEPOLL_CTL_DEL
      then (case erase_first ch (m_events_vec p) of
              Some v \<Rightarrow> (True, p\<lparr>m_events_vec := v\<rparr>)
            | None \<Rightarrow> (False, p))
      else if operation = XEPOLL_CTL_MOD
      then (case modify_first ch (m_events (st ch)) (m_events_vec p) of
              Some v \<Rightarrow> (True, p\<lparr>m_events_vec := v\<rparr>)
            | None \<Rightarrow> (False, p))
      else (False, p))"

text \<open>
  \<open>SelectPoller::updateChannel\<close>: \<open>Abort\<close> from the assertion of the loop thread, otherwise
  the returned bool, the poller and the store (the call writes the channel's index).
\<close>

definition updateChannel :: "bool \<Rightarrow> addr \<Rightarrow> SelectPoller \<Rightarrow> (addr \<Rightarrow> Channel) \<Rightarrow> Error + (bool \<times> SelectPoller \<times> (addr \<Rightarrow> Channel))" where
  "updateChannel inLoopThread ch p st =
     (if \<not> inLoopThread then Inl Abort
      else
        (let index = m_index (st ch); fd = m_fd (st ch) in
         if index = kNew \<or> index = kDeleted then
           (if index = kNew then
              (if m_channels p fd \<noteq> None then Inr (False, p, st)
               else
                 (let p1 = p\<lparr>m_channels := (m_channels p)(fd \<mapsto> ch)\<rparr>;
                      st1 = st(ch := (st ch)\<lparr>m_index := kAdded\<rparr>);
                      r = SelectPoller_update XEPOLL_CTL_ADD ch p1 st1
                  in Inr (fst r, snd r, st1)))
            else
              (if m_channels p fd = None then Inr (False, p, st)
               else if m_channels p fd \<noteq> Some ch then Inr (False, p, st)
               else
                 (let st1 = st(ch := (st ch)\<lparr>m_index := kAdded\<rparr>);
                      r = SelectPoller_update XEPOLL_CTL_ADD ch p st1
                  in Inr (fst r, snd r, st1))))
         else
           (if m_channels p fd = None \<or> m_channels p fd \<noteq> Some ch \<or> index \<noteq> kAdded
            then Inr (False, p, st)
            else if isNoneEvent (st ch) then
              (let r = SelectPoller_update XEPOLL_CTL_DEL ch p st in
               if fst r then Inr (True, snd r, st(ch := (st ch)\<lparr>m_index := kDeleted\<rparr>))
               else Inr (False, snd r, st))
            else
              (let r = SelectPoller_update XEPOLL_CTL_MOD ch p st in
               Inr (fst r, snd r, st)))))"

text \<open>\<open>SelectPoller::removeChannel\<close>.\<close>

definition removeChannel :: "bool \<Rightarrow> addr \<Rightarrow> SelectPoller \<Rightarrow> (addr \<Rightarrow> Channel) \<Rightarrow> Error + (SelectPoller \<times> (addr \<Rightarrow> Channel))" where
  "removeChannel inLoopThread ch p st =
     (if \<not> inLoopThread then Inl Abort
      else
        (let fd = m_fd (st ch) in
         if m_channels p fd = None then Inr (p, st)
         else if m_channels p fd \<noteq> Some ch then Inr (p, st)
         else if \<not> isNoneEvent (st ch) then Inr (p, st)
         else Inr (p\<lparr>m_channels := (m_channels p)(fd := None)\<rparr>,
                   st(ch := (st ch)\<lparr>m_index := kNew\<rparr>))))"

text \<open>
  \<open>Channel::remove\<close>. Modelled from the spec: \<open>EventLoop::removeChannel\<close> (EventLoop.cpp is not
  among the sources) hands the channel to the poller's \<open>removeChannel\<close>.
\<close>

definition Channel_remove :: "bool \<Rightarrow> addr \<Rightarrow> SelectPoller \<Rightarrow> (addr \<Rightarrow> Channel) \<Rightarrow> Error + (SelectPoller \<times> (addr \<Rightarrow> Channel))" where
  "Channel_remove inLoopThread ch p st =
     (if \<not> isNoneEvent (st ch) then Inr (p, st)
      else removeChannel inLoopThread ch p st)"

text \<open>
  The invariant of the poller's map: every entry \<open>fd \<mapsto> c\<close> points to a channel whose fd is
  \<open>fd\<close> and whose index is \<open>kAdded\<close> or \<open>kDeleted\<close>.
\<close>

definition poller_inv :: "SelectPoller \<Rightarrow> (addr \<Rightarrow> Channel) \<Rightarrow> bool" where
  "poller_inv p st =
     (\<forall>fd c. m_channels p fd = Some c \<longrightarrow>
        m_fd (st c) = fd \<and> (m_index (st c) = kAdded \<or> m_index (st c) = kDeleted))"

section \<open>TcpConnection (net/TcpConnection.h, TcpConnection.cpp)\<close>

text \<open>
  Modelled from the spec: \<open>ByteBuffer\<close> (ByteBuffer.h is not among the sources) is the
  sequence of its readable bytes: \<open>readableBytes\<close> is its length, \<open>append\<close> adds at the end,
  \<open>retrieveAll\<close> empties it. Sizes (\<open>size_t\<close>) are natural numbers: they are lengths of byte
  sequences held in memory; the one subtraction that can wrap is written out below.
\<close>

type_synonym ByteBuffer = "8 word list"

definition readableBytes :: "ByteBuffer \<Rightarrow> nat" where
  "readableBytes b = length b"

datatype StateE = kDisconnected | kConnecting | kConnected | kDisconnecting

text \<open>
  The members \<open>sendInLoop\<close>, \<open>handleRead\<close>, \<open>handleClose\<close> and \<open>handleError\<close> use. The five
  \<open>std::function\<close> members are modelled by whether they hold a target
  (\<open>m_closeCallback_conn\<close> is the member \<open>m_closeCallback\<close> of \<open>TcpConnection\<close>); \<open>m_channel\<close> is
  the channel the connection owns.
\<close>

record TcpConnection =
  m_state :: StateE
  m_channel :: Channel
  m_connectionCallback :: bool
  m_messageCallback :: bool
  m_writeCompleteCallback :: bool
  m_highWaterMarkCallback :: bool
  m_closeCallback_conn :: bool
  m_highWaterMark :: nat
  m_inputBuffer :: ByteBuffer
  m_outputBuffer :: ByteBuffer

text \<open>
  What a member function does besides changing the connection, in order: system calls,
  closures handed to the loop, calls of \<open>Channel::update\<close> (which asks the loop to update
  the poller) and invocations of the user's callbacks. The callbacks are opaque: what they
  do themselves is not part of the model.
\<close>

datatype Task =
    WriteCompleteTask
  | HighWaterMarkTask nat
  | SendInLoopTask ByteBuffer

datatype Effect =
    SocketsWrite int ByteBuffer
  | ReadFd int
  | GetSocketError int
  | QueueInLoop Task
  | RunInLoop Task
  | ChannelUpdate "32 word"
  | InvokeConnectionCallback
  | InvokeMessageCallback ByteBuffer Timestamp
  | InvokeCloseCallback

text \<open>
  What the environment decides in one call: whether the caller is the loop's thread, what
  \<open>sockets::write\<close> returns (with \<open>errno\<close> when it fails) and what \<open>ByteBuffer::readFd\<close>
  receives. Modelled from the spec: \<open>readFd\<close> (not among the sources) appends the bytes it
  read to the buffer and returns their number, \<open>0\<close> at end of file, or a negative number
  and the error.
\<close>

datatype ReadResult = ReadBytes ByteBuffer | ReadFailed int

record Env =
  isInLoopThread :: bool
  write_result :: int
  write_errno :: int
  read_result :: ReadResult

definition EWOULDBLOCK :: int where "EWOULDBLOCK = 11"
definition EPIPE :: int where "EPIPE = 32"
definition ECONNRESET :: int where "ECONNRESET = 104"

text \<open>
  The constructor: state \<open>kConnecting\<close>, a new channel for the socket with its four
  callbacks bound to the connection's handlers, the default high-water mark of 64 MiB, no
  user callback and empty buffers.
\<close>

definition TcpConnection_new :: "int \<Rightarrow> TcpConnection" where
  "TcpConnection_new sockfd =
     \<lparr>m_state = kConnecting,
      m_channel = (Channel_new sockfd)\<lparr>m_readCallback := True, m_writeCallback := True,
        m_closeCallback := True, m_errorCallback := True\<rparr>,
      m_connectionCallback = False, m_messageCallback = False,
      m_writeCompleteCallback = False, m_highWaterMarkCallback = False,
      m_closeCallback_conn = False,
      m_highWaterMark = 64 * 1024 * 1024,
      m_inputBuffer = [], m_outputBuffer = []\<rparr>"

text \<open>\<open>Channel::enableWriting\<close> and \<open>Channel::disableAll\<close>: the channel and the call of \<open>update\<close>.\<close>

definition enableWriting :: "Channel \<Rightarrow> Channel \<times> Effect list" where
  "enableWriting c =
     (let c1 = c\<lparr>m_events := m_events c OR kWriteEvent\<rparr> in (c1, [ChannelUpdate (m_events c1)]))"

definition disableAll :: "Channel \<Rightarrow> Channel \<times> Effect list" where
  "disableAll c =
     (let c1 = c\<lparr>m_events := kNoneEvent\<rparr> in (c1, [ChannelUpdate (m_events c1)]))"

text \<open>\<open>len - nwrote\<close> in \<open>size_t\<close>, for the \<open>int32_t\<close> value \<open>nwrote\<close>.\<close>

definition size_t_sub :: "nat \<Rightarrow> int \<Rightarrow> nat" where
  "size_t_sub len nwrote = nat ((int len - nwrote) mod 2 ^ 64)"

text \<open>
  The locals of \<open>TcpConnection::sendInLoop(const void *data, size_t len)\<close> after the attempt
  to write directly; \<open>data\<close> is the sequence of the \<open>len\<close> bytes at the pointer.
\<close>

definition direct_write :: "TcpConnection \<Rightarrow> bool" where
  "direct_write c = (\<not> isWriting (m_channel c) \<and> readableBytes (m_outputBuffer c) = 0)"

definition nwrote_of :: "Env \<Rightarrow> TcpConnection \<Rightarrow> int" where
  "nwrote_of env c = (if direct_write c \<and> write_result env \<ge> 0 then write_result env else 0)"

definition remaining_of :: "Env \<Rightarrow> TcpConnection \<Rightarrow> nat \<Rightarrow> nat" where
  "remaining_of env c len =
     (if direct_write c \<and> write_result env \<ge> 0 then size_t_sub len (write_result env) else len)"

definition faultError_of :: "Env \<Rightarrow> TcpConnection \<Rightarrow> bool" where
  "faultError_of env c =
     (direct_write c \<and> \<not> write_result env \<ge> 0 \<and> write_errno env \<noteq> EWOULDBLOCK \<and>
      (write_errno env = EPIPE \<or> write_errno env = ECONNRESET))"

definition sendInLoop :: "Env \<Rightarrow> TcpConnection \<Rightarrow> ByteBuffer \<Rightarrow> Error + (TcpConnection \<times> Effect list)" where
  "sendInLoop env c data =
     (if \<not> isInLoopThread env then Inl Abort
      else if m_state c = kDisconnected then Inr (c, [])
      else
        (let len = length data;
             nwrote = nwrote_of env c;
             remaining = remaining_of env c len;
             faultError = faultError_of env c;
             eff1 =
               (if direct_write c then
                  SocketsWrite (m_fd (m_channel c)) data #
                  (if write_result env \<ge> 0 \<and> remaining = 0 \<and> m_writeCompleteCallback c
                   then [QueueInLoop WriteCompleteTask] else [])
                else [])
         in if remaining > len then Inr (c, eff1)
            else if \<not> faultError \<and> remaining > 0 then
              (let oldLen = readableBytes (m_outputBuffer c);
                   eff2 =
                     (if oldLen + remaining \<ge> m_highWaterMark c \<and> oldLen < m_highWaterMark c \<and>
                         m_highWaterMarkCallback c
                      then [QueueInLoop (HighWaterMarkTask (oldLen + remaining))] else []);
                   c1 = c\<lparr>m_outputBuffer := m_outputBuffer c @ take remaining (drop (nat nwrote) data)\<rparr>
               in if \<not> isWriting (m_channel c1) then
                    (let r = enableWriting (m_channel c1)
                     in Inr (c1\<lparr>m_channel := fst r\<rparr>, eff1 @ eff2 @ snd r))
                  else Inr (c1, eff1 @ eff2))
            else Inr (c, eff1)))"

text \<open>\<open>TcpConnection::sendInLoop(const string &message)\<close>.\<close>

definition sendInLoop_string :: "Env \<Rightarrow> TcpConnection \<Rightarrow> ByteBuffer \<Rightarrow> Error + (TcpConnection \<times> Effect list)" where
  "sendInLoop_string env c message = sendInLoop env c message"

text \<open>
  The three overloads of \<open>TcpConnection::send\<close>; \<open>data\<close> is the sequence of the \<open>len\<close>
  bytes at the pointer. Outside the loop's thread the payload is copied and \<open>runInLoop\<close> is
  given the closure that calls \<open>sendInLoop\<close> (the effect \<open>RunInLoop\<close>; the loop runs it
  later, in its own thread). The overload taking a \<open>ByteBuffer *\<close> also returns the
  caller's buffer, which it empties when it sends; that buffer is taken to be an object
  other than the connection's own two buffers.
\<close>

definition send_raw :: "Env \<Rightarrow> TcpConnection \<Rightarrow> ByteBuffer \<Rightarrow> Error + (TcpConnection \<times> Effect list)" where
  "send_raw env c data =
     (if m_state c = kConnected then
        (if isInLoopThread env then sendInLoop env c data
         else Inr (c, [RunInLoop (SendInLoopTask data)]))
      else Inr (c, []))"

definition send_string :: "Env \<Rightarrow> TcpConnection \<Rightarrow> ByteBuffer \<Rightarrow> Error + (TcpConnection \<times> Effect list)" where
  "send_string env c message =
     (if m_state c = kConnected then
        (if isInLoopThread env then sendInLoop_string env c message
         else Inr (c, [RunInLoop (SendInLoopTask message)]))
      else Inr (c, []))"

definition send_buffer :: "Env \<Rightarrow> TcpConnection \<Rightarrow> ByteBuffer \<Rightarrow> Error + (TcpConnection \<times> ByteBuffer \<times> Effect list)" where
  "send_buffer env c buf =
     (if m_state c = kConnected then
        (if isInLoopThread env then
           (case sendInLoop env c buf of
              Inl e \<Rightarrow> Inl e
            | Inr r \<Rightarrow> Inr (fst r, [], snd r))
         else Inr (c, [], [RunInLoop (SendInLoopTask buf)]))
      else Inr (c, buf, []))"

text \<open>\<open>TcpConnection::handleClose\<close>.\<close>

definition handleClose :: "Env \<Rightarrow> TcpConnection \<Rightarrow> Error + (TcpConnection \<times> Effect list)" where
  "handleClose env c =
     (if m_state c = kDisconnected then Inr (c, [])
      else if \<not> isInLoopThread env then Inl Abort
      else
        (let r = disableAll (m_channel c);
             c1 = c\<lparr>m_state := kDisconnected, m_channel := fst r\<rparr>
         in if \<not> m_connectionCallback c1 then Inl BadFunctionCall
            else if \<not> m_closeCallback_conn c1 then Inl BadFunctionCall
            else Inr (c1, snd r @ [InvokeConnectionCallback, InvokeCloseCallback])))"

text \<open>\<open>TcpConnection::handleError\<close>: it reads \<open>SO_ERROR\<close>, logs it and calls \<open>handleClose\<close>.\<close>

definition handleError :: "Env \<Rightarrow> TcpConnection \<Rightarrow> Error + (TcpConnection \<times> Effect list)" where
  "handleError env c =
     (case handleClose env c of
        Inl e \<Rightarrow> Inl e
      | Inr r \<Rightarrow> Inr (fst r, GetSocketError (m_fd (m_channel c)) # snd r))"

text \<open>\<open>TcpConnection::handleRead\<close>: \<open>n\<close> is what \<open>readFd\<close> returned.\<close>

definition readFd_n :: "ReadResult \<Rightarrow> int" where
  "readFd_n r = (case r of ReadBytes bs \<Rightarrow> int (length bs) | ReadFailed e \<Rightarrow> - 1)"

definition readFd_buffer :: "ReadResult \<Rightarrow> ByteBuffer \<Rightarrow> ByteBuffer" where
  "readFd_buffer r buf = (case r of ReadBytes bs \<Rightarrow> buf @ bs | ReadFailed e \<Rightarrow> buf)"

definition handleRead :: "Env \<Rightarrow> TcpConnection \<Rightarrow> Timestamp \<Rightarrow> Error + (TcpConnection \<times> Effect list)" where
  "handleRead env c receiveTime =
     (if \<not> isInLoopThread env then Inl Abort
      else
        (let n = readFd_n (read_result env);
             c1 = c\<lparr>m_inputBuffer := readFd_buffer (read_result env) (m_inputBuffer c)\<rparr>;
             rd = ReadFd (m_fd (m_channel c))
         in if n > 0 then
              (if m_messageCallback c1
               then Inr (c1, [rd, InvokeMessageCallback (m_inputBuffer c1) receiveTime])
               else Inl BadFunctionCall)
            else if n = 0 then
              (case handleClose env c1 of
                 Inl e \<Rightarrow> Inl e
               | Inr r \<Rightarrow> Inr (fst r, rd # snd r))
            else
              (case handleError env c1 of
                 Inl e \<Rightarrow> Inl e
               | Inr r \<Rightarrow> Inr (fst r, rd # snd r))))"

text \<open>Running one member function after another: the first error ends the run.\<close>

definition and_then :: "Error + (TcpConnection \<times> Effect list) \<Rightarrow> (TcpConnection \<Rightarrow> Error + (TcpConnection \<times> Effect list)) \<Rightarrow> Error + (TcpConnection \<times> Effect list)" where
  "and_then r f =
     (case r of
        Inl e \<Rightarrow> Inl e
      | Inr x \<Rightarrow> (case f (fst x) of Inl e \<Rightarrow> Inl e | Inr y \<Rightarrow> Inr (fst y, snd x @ snd y)))"

section \<open>Vocabulary of the properties\<close>

text \<open>The queue the constructor of \<open>TimerQueue\<close> builds: no entries, no timer created yet.\<close>

definition no_timers :: TimerQueue where
  "no_timers = \<lparr>m_timers = [], timerStore = (\<lambda>_. Timer_new3 0 0 0 0), s_numCreated = 0\<rparr>"

text \<open>
  The representation invariant of the set: strictly increasing entries, and every timer in
  at most one entry (\<open>insert\<close> is called once for each timer, with the address \<open>new\<close> gave).
\<close>

definition timers_ordered :: "TimerQueue \<Rightarrow> bool" where
  "timers_ordered q = (sorted_wrt (<) (m_timers q) \<and> distinct (map snd (m_timers q)))"

text \<open>In a list of fired timers, \<open>a\<close> fires before \<open>b\<close> first does.\<close>

definition fires_before :: "addr \<Rightarrow> addr \<Rightarrow> addr list \<Rightarrow> bool" where
  "fires_before a b fired = (a \<in> set (takeWhile (\<lambda>x. x \<noteq> b) fired))"

text \<open>A flag is set in a ready-event mask when all its bits are in the mask.\<close>

definition flag_set :: "32 word \<Rightarrow> 32 word \<Rightarrow> bool" where
  "flag_set revents flag = (revents AND flag = flag)"

text \<open>The arguments of the high-water-mark callbacks queued in a list of effects, in order.\<close>

fun high_water_tasks :: "Effect list \<Rightarrow> nat list" where
  "high_water_tasks [] = []"
| "high_water_tasks (QueueInLoop (HighWaterMarkTask n) # es) = n # high_water_tasks es"
| "high_water_tasks (e # es) = high_water_tasks es"

text \<open>The payloads handed to \<open>sockets::write\<close> in a list of effects, in order.\<close>

fun written :: "Effect list \<Rightarrow> ByteBuffer list" where
  "written [] = []"
| "written (SocketsWrite fd bs # es) = bs # written es"
| "written (e # es) = written es"

section \<open>Timers: what \<open>doTimer\<close> does\<close>

lemmas timer_defs = no_timers_def addTimer_const_def addTimer_move_def addTimerInLoop_def
  insert_timer_def set_insert_def doTimer_def Timer_run_def Timer_new3_def Timer_new4_def Let_def

lemma doTimer_loop_subseq: "subseq (snd (snd (doTimer_loop now es st))) (map snd es)"
proof (induction es arbitrary: st)
  case Nil
  show ?case by simp
next
  case (Cons e es)
  obtain k p where e: "e = (k, p)" by (cases e)
  have ih: "subseq (snd (snd (doTimer_loop now es st'))) (map snd es)" for st'
    by (rule Cons.IH)
  then have "subseq (snd (snd (doTimer_loop now es st'))) (p # map snd es)" for st'
    by (rule list_emb_Cons)
  with ih show ?case by (simp add: e Let_def)
qed

lemma doTimer_loop_subseq_entries: "subseq (fst (doTimer_loop now es st)) es"
proof (induction es arbitrary: st)
  case Nil
  show ?case by simp
next
  case (Cons e es)
  obtain k p where e: "e = (k, p)" by (cases e)
  have ih: "subseq (fst (doTimer_loop now es st')) es" for st'
    by (rule Cons.IH)
  then have "subseq (fst (doTimer_loop now es st')) ((k, p) # es)" for st'
    by (rule list_emb_Cons)
  with ih show ?case by (simp add: e Let_def)
qed

lemma before_subseq:
  "subseq xs ys \<Longrightarrow> distinct ys \<Longrightarrow> a \<in> set (takeWhile (\<lambda>x. x \<noteq> b) ys) \<Longrightarrow>
   a \<in> set xs \<Longrightarrow> b \<in> set xs \<Longrightarrow> a \<in> set (takeWhile (\<lambda>x. x \<noteq> b) xs)"
proof (induction rule: list_emb.induct)
  case (list_emb_Nil ys)
  then show ?case by simp
next
  case (list_emb_Cons xs ys y)
  then show ?case
    by (auto split: if_splits dest: list_emb_set)
next
  case (list_emb_Cons2 x y xs ys)
  then show ?case by (auto split: if_splits)
qed

lemma sorted_before:
  "sorted_wrt (<) (es::Entry list) \<Longrightarrow> distinct (map snd es) \<Longrightarrow> (t, a) \<in> set es \<Longrightarrow>
   (t, b) \<in> set es \<Longrightarrow> a < b \<Longrightarrow> a \<in> set (takeWhile (\<lambda>x. x \<noteq> b) (map snd es))"
proof (induction es)
  case Nil
  then show ?case by simp
next
  case (Cons e es)
  obtain k p where e: "e = (k, p)" by (cases e)
  show ?case
  proof (cases "e = (t, a)")
    case True
    with Cons.prems show ?thesis by auto
  next
    case False
    with Cons.prems have a: "(t, a) \<in> set es" by simp
    have "e \<noteq> (t, b)"
    proof
      assume "e = (t, b)"
      with Cons.prems(1) a have "(t, b) < (t, a)" by auto
      with Cons.prems(5) show False by simp
    qed
    with Cons.prems have b: "(t, b) \<in> set es" by simp
    from Cons.prems(2) b e have "p \<noteq> b" by (auto simp: image_iff)
    moreover from Cons.IH Cons.prems a b
    have "a \<in> set (takeWhile (\<lambda>x. x \<noteq> b) (map snd es))" by simp
    ultimately show ?thesis using e by simp
  qed
qed

lemma set_insert_sorted: "sorted_wrt (<) es \<Longrightarrow> sorted_wrt (<) (set_insert e es)"
proof -
  assume s: "sorted_wrt (<) es"
  then have "sorted es" "distinct es" by (simp_all add: strict_sorted_iff)
  then show ?thesis
    by (auto simp: set_insert_def strict_sorted_iff sorted_insort distinct_insort)
qed

lemma set_insert_distinct_snd:
  "distinct (map snd es) \<Longrightarrow> snd e \<notin> snd ` set es \<Longrightarrow> distinct (map snd (set_insert e es))"
  by (induction es) (auto simp: set_insert_def set_insort_key split: if_splits)

text \<open>
  \<open>insert\<close> keeps the set ordered by (expiration, address) when the timer is not in it yet.
\<close>

lemma insert_timer_ordered:
  assumes "timers_ordered q" "p \<notin> snd ` set (m_timers q)" "insert_timer True p q = Inr q'"
  shows "timers_ordered q'"
  using assms
  by (auto simp: timers_ordered_def insert_timer_def set_insert_sorted set_insert_distinct_snd)

lemma subseq_sorted_wrt:
  "subseq xs ys \<Longrightarrow> sorted_wrt (<) (ys::Entry list) \<Longrightarrow> sorted_wrt (<) xs"
  by (induction rule: list_emb.induct) (auto dest: list_emb_set)

lemma subseq_distinct_snd: "subseq xs ys \<Longrightarrow> distinct (map snd ys) \<Longrightarrow> distinct (map snd xs)"
  by (induction rule: list_emb.induct) (auto dest: list_emb_set simp: image_iff)

text \<open>
  C1. The claim: \<open>doTimer\<close> fires every timer whose expiration is \<open>\<le> now\<close>, re-inserts each
  repeating timer under its advanced expiration, and deletes every one-shot timer
  (interval 0) after it fired. The code at the claim's inputs:
  \<^item> \<open>addTimer(cb, 50, 0, 1)\<close> through the \<open>const TimerCallback &\<close> overload leaves a timer
    with interval 0 and repeat count \<open>-1\<close>; \<open>doTimer\<close> at 60 fires it and keeps its entry,
    and the next \<open>doTimer\<close> at 60 fires it again;
  \<^item> with a repeating timer (expiration 10, interval 100) in front of it, \<open>doTimer\<close> at 20
    fires the repeating timer and advances its expiration to 110, but its entry stays
    under the key 10; \<open>doTimer\<close> at 60 then stops at that entry and does not fire the
    timer behind it, whose expiration 50 is \<open>\<le> 60\<close>.
\<close>

theorem doTimer_keeps_stale_entries:
  "m_timers (projr (addTimer_const 32 7 50 0 1 no_timers)) = [(50, 32)] \<and>
   m_repeatCount (timerStore (projr (addTimer_const 32 7 50 0 1 no_timers)) 32) = - 1 \<and>
   map_sum id (\<lambda>r. (m_timers (fst r), snd r))
     (doTimer True 60 (projr (addTimer_const 32 7 50 0 1 no_timers))) = Inr ([(50, 32)], [32]) \<and>
   map_sum id (\<lambda>r. (m_timers (fst r), snd r))
     (doTimer True 60
        (fst (projr (doTimer True 60 (projr (addTimer_const 32 7 50 0 1 no_timers))))))
     = Inr ([(50, 32)], [32]) \<and>
   map_sum id (\<lambda>r. (m_timers (fst r), m_expiration (timerStore (fst r) 16), snd r))
     (doTimer True 20
        (projr (addTimer_const 32 7 50 0 1
           (projr (addTimer_const 16 8 10 100 (- 1) no_timers)))))
     = Inr ([(10, 16), (50, 32)], 110, [16]) \<and>
   map_sum id (\<lambda>r. (m_timers (fst r), m_expiration (timerStore (fst r) 32), snd r))
     (doTimer True 60 (fst (projr (doTimer True 20
        (projr (addTimer_const 32 7 50 0 1
           (projr (addTimer_const 16 8 10 100 (- 1) no_timers))))))))
     = Inr ([(10, 16), (50, 32)], 50, [])"
  by (simp add: timer_defs)

text \<open>
  C2, as claimed: two timers added with equal expirations fire in the order they were
  added. Counterexample: the timer added first (sequence 1) is at address 32, the one added
  second (sequence 2) at address 16, both expire at 10; the set holds the second in front of
  the first and \<open>doTimer\<close> at 10 fires the second first.
\<close>

theorem equal_expiry_not_in_insertion_order:
  "m_sequence (timerStore (projr (addTimer_const 16 8 10 0 1
      (projr (addTimer_const 32 7 10 0 1 no_timers)))) 32) = 1 \<and>
   m_sequence (timerStore (projr (addTimer_const 16 8 10 0 1
      (projr (addTimer_const 32 7 10 0 1 no_timers)))) 16) = 2 \<and>
   m_timers (projr (addTimer_const 16 8 10 0 1
      (projr (addTimer_const 32 7 10 0 1 no_timers)))) = [(10, 16), (10, 32)] \<and>
   map_sum id snd (doTimer True 10 (projr (addTimer_const 16 8 10 0 1
      (projr (addTimer_const 32 7 10 0 1 no_timers))))) = Inr [16, 32] \<and>
   \<not> fires_before 32 16 (snd (projr (doTimer True 10 (projr (addTimer_const 16 8 10 0 1
      (projr (addTimer_const 32 7 10 0 1 no_timers)))))))"
  by (simp add: timer_defs fires_before_def)

text \<open>
  C2, amended: the set orders its entries by (expiration at insertion, address of the
  timer). For two timers entered under the same expiration, when the callbacks of both run
  in one \<open>doTimer\<close>, the timer at the lower address fires first, whatever the other timers
  in the set are; and \<open>doTimer\<close> leaves the set ordered.
\<close>

theorem equal_expiry_fire_in_address_order:
  assumes ord: "timers_ordered q"
    and a: "(t, a) \<in> set (m_timers q)" and b: "(t, b) \<in> set (m_timers q)" and ab: "a < b"
    and run: "doTimer True now q = Inr (q', fired)"
    and fa: "a \<in> set fired" and fb: "b \<in> set fired"
  shows "fires_before a b fired \<and> timers_ordered q'"
proof -
  from run have fired: "fired = snd (snd (doTimer_loop now (m_timers q) (timerStore q)))"
    and q': "m_timers q' = fst (doTimer_loop now (m_timers q) (timerStore q))"
    by (auto simp: doTimer_def Let_def)
  from ord have s: "sorted_wrt (<) (m_timers q)" and d: "distinct (map snd (m_timers q))"
    by (simp_all add: timers_ordered_def)
  have sub: "subseq fired (map snd (m_timers q))"
    unfolding fired by (rule doTimer_loop_subseq)
  have "a \<in> set (takeWhile (\<lambda>x. x \<noteq> b) (map snd (m_timers q)))"
    using sorted_before [OF s d a b ab] .
  then have "a \<in> set (takeWhile (\<lambda>x. x \<noteq> b) fired)"
    using before_subseq [OF sub d _ fa fb] by simp
  then have before: "fires_before a b fired"
    by (simp add: fires_before_def)
  have sq: "subseq (m_timers q') (m_timers q)"
    unfolding q' by (rule doTimer_loop_subseq_entries)
  from sq s have "sorted_wrt (<) (m_timers q')"
    by (rule subseq_sorted_wrt)
  moreover from sq d have "distinct (map snd (m_timers q'))"
    by (rule subseq_distinct_snd)
  ultimately have "timers_ordered q'"
    by (simp add: timers_ordered_def)
  with before show ?thesis by simp
qed

theorem equal_expiry_fire_in_address_order_witness:
  "timers_ordered (projr (addTimer_const 16 8 10 0 1
      (projr (addTimer_const 32 7 10 0 1 no_timers)))) \<and>
   (10, 16) \<in> set (m_timers (projr (addTimer_const 16 8 10 0 1
      (projr (addTimer_const 32 7 10 0 1 no_timers))))) \<and>
   (10, 32) \<in> set (m_timers (projr (addTimer_const 16 8 10 0 1
      (projr (addTimer_const 32 7 10 0 1 no_timers))))) \<and>
   fires_before 16 32 (snd (projr (doTimer True 10 (projr (addTimer_const 16 8 10 0 1
      (projr (addTimer_const 32 7 10 0 1 no_timers)))))))"
proof -
  let ?q = "projr (addTimer_const 16 8 10 0 1 (projr (addTimer_const 32 7 10 0 1 no_timers)))"
  have ts: "m_timers ?q = [(10, 16), (10, 32)]" by (simp add: timer_defs)
  have o: "timers_ordered ?q" by (simp add: timers_ordered_def ts)
  have r: "doTimer True 10 ?q =
      Inr (fst (projr (doTimer True 10 ?q)), snd (projr (doTimer True 10 ?q)))"
    by (simp add: doTimer_def Let_def)
  have f: "snd (projr (doTimer True 10 ?q)) = [16, 32]" by (simp add: timer_defs)
  have "fires_before 16 32 (snd (projr (doTimer True 10 ?q)))"
    using equal_expiry_fire_in_address_order [OF o _ _ _ r, of 10 16 32] by (simp add: ts f)
  with o ts show ?thesis by simp
qed

section \<open>Channel: the dispatch of \<open>handleEvent\<close>\<close>

lemma and_exp_cases: "(r::32 word) AND 2 ^ n = (if bit r n then 2 ^ n else 0)"
  by (rule bit_eqI) (auto simp: bit_and_iff bit_exp_iff)

lemma single_bit_test:
  assumes "n < 32"
  shows "((r::32 word) AND 2 ^ n \<noteq> 0) = (r AND 2 ^ n = 2 ^ n)"
proof -
  from assms have "(2::32 word) ^ n \<noteq> 0" by simp
  then show ?thesis by (auto simp: and_exp_cases)
qed

lemma or_mask_test:
  "((r::32 word) AND (a OR b) \<noteq> 0) = (r AND a \<noteq> 0 \<or> r AND b \<noteq> 0)"
  by (simp add: bit.conj_disj_distrib or_eq_0_iff)

lemma flag_set_XPOLLIN: "(r AND XPOLLIN \<noteq> 0) = flag_set r XPOLLIN"
  using single_bit_test [of 0 r] by (simp add: flag_set_def XPOLLIN_def)

lemma flag_set_XPOLLPRI: "(r AND XPOLLPRI \<noteq> 0) = flag_set r XPOLLPRI"
  using single_bit_test [of 1 r] by (simp add: flag_set_def XPOLLPRI_def)

lemma flag_set_XPOLLOUT: "(r AND XPOLLOUT \<noteq> 0) = flag_set r XPOLLOUT"
  using single_bit_test [of 2 r] by (simp add: flag_set_def XPOLLOUT_def)

lemma flag_set_XPOLLERR: "(r AND XPOLLERR \<noteq> 0) = flag_set r XPOLLERR"
  using single_bit_test [of 3 r] by (simp add: flag_set_def XPOLLERR_def)

lemma flag_set_XPOLLHUP: "(r AND XPOLLHUP \<noteq> 0) = flag_set r XPOLLHUP"
  using single_bit_test [of 4 r] by (simp add: flag_set_def XPOLLHUP_def)

lemma flag_set_XPOLLNVAL: "(r AND XPOLLNVAL \<noteq> 0) = flag_set r XPOLLNVAL"
  using single_bit_test [of 5 r] by (simp add: flag_set_def XPOLLNVAL_def)

lemma flag_set_XPOLLRDHUP: "(r AND XPOLLRDHUP \<noteq> 0) = flag_set r XPOLLRDHUP"
  using single_bit_test [of 13 r] by (simp add: flag_set_def XPOLLRDHUP_def)

lemmas flag_tests = flag_set_XPOLLIN flag_set_XPOLLPRI flag_set_XPOLLOUT flag_set_XPOLLERR
  flag_set_XPOLLHUP flag_set_XPOLLNVAL flag_set_XPOLLRDHUP

text \<open>
  C5. For every ready-event mask, \<open>handleEvent\<close> invokes the registered callbacks in this
  order and under these conditions, and no others: close when HUP is set and IN is not,
  error when ERR or NVAL is set, read when IN, PRI or RDHUP is set, write when OUT is set.
\<close>

theorem handleEvent_dispatch:
  "handleEvent c ts =
     (if flag_set (m_revents c) XPOLLHUP \<and> \<not> flag_set (m_revents c) XPOLLIN \<and> m_closeCallback c
      then [CallClose] else []) @
     (if (flag_set (m_revents c) XPOLLERR \<or> flag_set (m_revents c) XPOLLNVAL) \<and> m_errorCallback c
      then [CallError] else []) @
     (if (flag_set (m_revents c) XPOLLIN \<or> flag_set (m_revents c) XPOLLPRI \<or>
          flag_set (m_revents c) XPOLLRDHUP) \<and> m_readCallback c
      then [CallRead ts] else []) @
     (if flag_set (m_revents c) XPOLLOUT \<and> m_writeCallback c
      then [CallWrite] else [])"
proof -
  have hup: "(m_revents c AND XPOLLHUP \<noteq> 0 \<and> \<not> (m_revents c AND XPOLLIN \<noteq> 0)) =
      (flag_set (m_revents c) XPOLLHUP \<and> \<not> flag_set (m_revents c) XPOLLIN)"
    by (simp only: flag_tests)
  have err: "(m_revents c AND (XPOLLERR OR XPOLLNVAL) \<noteq> 0) =
      (flag_set (m_revents c) XPOLLERR \<or> flag_set (m_revents c) XPOLLNVAL)"
    by (simp only: or_mask_test flag_tests)
  have rd: "(m_revents c AND (XPOLLIN OR XPOLLPRI OR XPOLLRDHUP) \<noteq> 0) =
      (flag_set (m_revents c) XPOLLIN \<or> flag_set (m_revents c) XPOLLPRI \<or>
       flag_set (m_revents c) XPOLLRDHUP)"
    by (simp only: or_mask_test flag_tests disj_assoc)
  have wr: "(m_revents c AND XPOLLOUT \<noteq> 0) = flag_set (m_revents c) XPOLLOUT"
    by (simp only: flag_tests)
  show ?thesis
    unfolding handleEvent_def hup err rd wr by simp
qed

theorem handleEvent_dispatch_witness:
  "handleEvent ((Channel_new 7)\<lparr>m_revents := 17, m_readCallback := True,
       m_closeCallback := True\<rparr>) 42 = [CallRead 42] \<and>
   handleEvent ((Channel_new 7)\<lparr>m_revents := 28, m_readCallback := True,
       m_closeCallback := True, m_errorCallback := True, m_writeCallback := True\<rparr>) 42
     = [CallClose, CallError, CallWrite]"
  by (simp add: handleEvent_dispatch flag_set_def Channel_new_def XPOLLIN_def XPOLLPRI_def
      XPOLLOUT_def XPOLLERR_def XPOLLHUP_def XPOLLNVAL_def XPOLLRDHUP_def)

section \<open>SelectPoller: registration and its invariant\<close>

lemma update_ADD:
  "SelectPoller_update XEPOLL_CTL_ADD ch p st =
     (True, p\<lparr>m_events_vec := m_events_vec p @ [(m_events (st ch), ch)]\<rparr>)"
  by (simp add: SelectPoller_update_def)

lemma update_channels: "m_channels (snd (SelectPoller_update operation ch p st)) = m_channels p"
  by (simp add: SelectPoller_update_def split: option.splits)

lemma updateChannel_wrong_thread: "updateChannel False ch p st = Inl Abort"
  by (simp add: updateChannel_def)

lemma updateChannel_New:
  "m_index (st ch) = kNew \<Longrightarrow>
   updateChannel True ch p st =
     (if m_channels p (m_fd (st ch)) \<noteq> None then Inr (False, p, st)
      else Inr (True,
        p\<lparr>m_channels := (m_channels p)(m_fd (st ch) \<mapsto> ch),
          m_events_vec := m_events_vec p @ [(m_events (st ch), ch)]\<rparr>,
        st(ch := (st ch)\<lparr>m_index := kAdded\<rparr>)))"
  by (simp add: updateChannel_def update_ADD Let_def)

lemma updateChannel_Deleted:
  "m_index (st ch) = kDeleted \<Longrightarrow>
   updateChannel True ch p st =
     (if m_channels p (m_fd (st ch)) = Some ch
      then Inr (True, p\<lparr>m_events_vec := m_events_vec p @ [(m_events (st ch), ch)]\<rparr>,
                st(ch := (st ch)\<lparr>m_index := kAdded\<rparr>))
      else Inr (False, p, st))"
  by (simp add: updateChannel_def update_ADD Let_def kNew_def kDeleted_def)

lemma updateChannel_Added:
  "m_index (st ch) = kAdded \<Longrightarrow>
   updateChannel True ch p st =
     (if m_channels p (m_fd (st ch)) \<noteq> Some ch then Inr (False, p, st)
      else if isNoneEvent (st ch) then
        (if fst (SelectPoller_update XEPOLL_CTL_DEL ch p st)
         then Inr (True, snd (SelectPoller_update XEPOLL_CTL_DEL ch p st),
                   st(ch := (st ch)\<lparr>m_index := kDeleted\<rparr>))
         else Inr (False, snd (SelectPoller_update XEPOLL_CTL_DEL ch p st), st))
      else Inr (fst (SelectPoller_update XEPOLL_CTL_MOD ch p st),
                snd (SelectPoller_update XEPOLL_CTL_MOD ch p st), st))"
  by (simp add: updateChannel_def Let_def kNew_def kDeleted_def kAdded_def)

lemma updateChannel_other:
  "m_index (st ch) \<noteq> kNew \<Longrightarrow> m_index (st ch) \<noteq> kDeleted \<Longrightarrow> m_index (st ch) \<noteq> kAdded \<Longrightarrow>
   updateChannel True ch p st = Inr (False, p, st)"
  by (simp add: updateChannel_def Let_def)

lemma removeChannel_eq:
  "removeChannel True ch p st =
     (if m_channels p (m_fd (st ch)) = Some ch \<and> isNoneEvent (st ch)
      then Inr (p\<lparr>m_channels := (m_channels p)(m_fd (st ch) := None)\<rparr>,
                st(ch := (st ch)\<lparr>m_index := kNew\<rparr>))
      else Inr (p, st))"
  by (simp add: removeChannel_def Let_def)

lemma inv_same_channels:
  "poller_inv p st \<Longrightarrow> m_channels p' = m_channels p \<Longrightarrow> poller_inv p' st"
  by (simp add: poller_inv_def)

lemma inv_set_index:
  assumes "poller_inv p st" "m_channels p' = m_channels p" "idx = kAdded \<or> idx = kDeleted"
  shows "poller_inv p' (st(ch := (st ch)\<lparr>m_index := idx\<rparr>))"
  using assms by (auto simp: poller_inv_def)

lemma inv_insert:
  assumes "poller_inv p st" "m_index (st ch) = kNew"
    "m_channels p' = (m_channels p)(m_fd (st ch) \<mapsto> ch)"
  shows "poller_inv p' (st(ch := (st ch)\<lparr>m_index := kAdded\<rparr>))"
  using assms by (auto simp: poller_inv_def kNew_def kAdded_def kDeleted_def)

lemma inv_erase:
  assumes "poller_inv p st" "m_channels p' = (m_channels p)(m_fd (st ch) := None)"
  shows "poller_inv p' (st(ch := (st ch)\<lparr>m_index := kNew\<rparr>))"
  using assms by (auto simp: poller_inv_def split: if_splits)

lemma updateChannel_inv:
  assumes inv: "poller_inv p st" and r: "updateChannel True ch p st = Inr (ok, p', st')"
  shows "poller_inv p' st'"
proof -
  consider (new) "m_index (st ch) = kNew" | (del) "m_index (st ch) = kDeleted"
    | (added) "m_index (st ch) = kAdded"
    | (other) "m_index (st ch) \<noteq> kNew" "m_index (st ch) \<noteq> kDeleted" "m_index (st ch) \<noteq> kAdded"
    by blast
  then show ?thesis
  proof cases
    case new
    show ?thesis
    proof (cases "m_channels p (m_fd (st ch)) \<noteq> None")
      case True
      with r new inv show ?thesis by (simp add: updateChannel_New)
    next
      case False
      with r new have "st' = st(ch := (st ch)\<lparr>m_index := kAdded\<rparr>)"
        and "m_channels p' = (m_channels p)(m_fd (st ch) \<mapsto> ch)"
        by (auto simp: updateChannel_New)
      with inv new show ?thesis by (simp add: inv_insert)
    qed
  next
    case del
    show ?thesis
    proof (cases "m_channels p (m_fd (st ch)) = Some ch")
      case True
      with r del have "st' = st(ch := (st ch)\<lparr>m_index := kAdded\<rparr>)"
        and "m_channels p' = m_channels p"
        by (auto simp: updateChannel_Deleted)
      with inv show ?thesis by (simp add: inv_set_index)
    next
      case False
      with r del inv show ?thesis by (simp add: updateChannel_Deleted)
    qed
  next
    case added
    show ?thesis
    proof (cases "m_channels p (m_fd (st ch)) \<noteq> Some ch")
      case True
      with r added inv show ?thesis by (simp add: updateChannel_Added)
    next
      case reg: False
      show ?thesis
      proof (cases "isNoneEvent (st ch)")
        case True
        show ?thesis
        proof (cases "fst (SelectPoller_update XEPOLL_CTL_DEL ch p st)")
          case True
          with r added reg \<open>isNoneEvent (st ch)\<close>
          have "st' = st(ch := (st ch)\<lparr>m_index := kDeleted\<rparr>)"
            and "m_channels p' = m_channels p"
            by (auto simp: updateChannel_Added update_channels)
          with inv show ?thesis by (simp add: inv_set_index)
        next
          case False
          with r added reg \<open>isNoneEvent (st ch)\<close>
          have "st' = st" and "m_channels p' = m_channels p"
            by (auto simp: updateChannel_Added update_channels)
          with inv show ?thesis by (simp add: inv_same_channels)
        qed
      next
        case False
        with r added reg have "st' = st" and "m_channels p' = m_channels p"
          by (auto simp: updateChannel_Added update_channels)
        with inv show ?thesis by (simp add: inv_same_channels)
      qed
    qed
  next
    case other
    with r inv show ?thesis by (simp add: updateChannel_other)
  qed
qed

lemma removeChannel_inv:
  assumes inv: "poller_inv p st" and r: "removeChannel True ch p st = Inr (p', st')"
  shows "poller_inv p' st'"
proof (cases "m_channels p (m_fd (st ch)) = Some ch \<and> isNoneEvent (st ch)")
  case True
  with r have "st' = st(ch := (st ch)\<lparr>m_index := kNew\<rparr>)"
    and "m_channels p' = (m_channels p)(m_fd (st ch) := None)"
    by (auto simp: removeChannel_eq)
  with inv show ?thesis by (simp add: inv_erase)
next
  case False
  with r inv show ?thesis by (auto simp: removeChannel_eq)
qed


lemma poller_inv_empty: "poller_inv \<lparr>m_channels = Map.empty, m_events_vec = []\<rparr> st"
  by (simp add: poller_inv_def)

lemma poller_inv_registered:
  assumes "poller_inv p st" "c \<in> ran (m_channels p)"
  shows "m_channels p (m_fd (st c)) = Some c \<and> (m_index (st c) = kAdded \<or> m_index (st c) = kDeleted)"
  using assms by (auto simp: poller_inv_def ran_def)

lemma erase_first_found: "ch \<in> snd ` set v \<Longrightarrow> \<exists>w. erase_first ch v = Some w"
proof (induction v)
  case Nil
  then show ?case by simp
next
  case (Cons e v)
  obtain ev q where e: "e = (ev, q)" by (cases e)
  show ?case
  proof (cases "q = ch")
    case True
    with e show ?thesis by simp
  next
    case False
    with Cons.prems e have "ch \<in> snd ` set v" by auto
    from Cons.IH [OF this] obtain w where "erase_first ch v = Some w" ..
    with False e show ?thesis by simp
  qed
qed

lemma update_DEL_found:
  assumes "ch \<in> snd ` set (m_events_vec p)"
  shows "\<exists>w. erase_first ch (m_events_vec p) = Some w \<and>
             SelectPoller_update XEPOLL_CTL_DEL ch p st = (True, p\<lparr>m_events_vec := w\<rparr>)"
proof -
  from erase_first_found [OF assms] obtain w where "erase_first ch (m_events_vec p) = Some w" ..
  then show ?thesis
    by (simp add: SelectPoller_update_def XEPOLL_CTL_ADD_def XEPOLL_CTL_DEL_def)
qed

lemma updateChannel_Added_to_Deleted:
  assumes "m_index (st ch) = kAdded" "isNoneEvent (st ch)"
    "m_channels p (m_fd (st ch)) = Some ch" "ch \<in> snd ` set (m_events_vec p)"
  shows "\<exists>w. erase_first ch (m_events_vec p) = Some w \<and>
             updateChannel True ch p st =
               Inr (True, p\<lparr>m_events_vec := w\<rparr>, st(ch := (st ch)\<lparr>m_index := kDeleted\<rparr>))"
proof -
  from update_DEL_found [OF assms(4), of st] obtain w
    where w: "erase_first ch (m_events_vec p) = Some w"
      and u: "SelectPoller_update XEPOLL_CTL_DEL ch p st = (True, p\<lparr>m_events_vec := w\<rparr>)"
    by blast
  from assms(1-3) u have "updateChannel True ch p st =
      Inr (True, p\<lparr>m_events_vec := w\<rparr>, st(ch := (st ch)\<lparr>m_index := kDeleted\<rparr>))"
    by (simp add: updateChannel_Added)
  with w show ?thesis by blast
qed

text \<open>
  C7. For every channel registered in the poller, the map entry of the channel's fd is the
  channel and its index is \<open>kAdded\<close> or \<open>kDeleted\<close>: the invariant holds for the empty
  poller and after every \<open>updateChannel\<close> and \<open>removeChannel\<close> that returns. \<open>updateChannel\<close>
  on a new channel (fd not in the map) succeeds, inserts it and sets the index to \<open>kAdded\<close>;
  on an added channel with no interest a successful call sets the index to \<open>kDeleted\<close> and
  keeps the map entry, and the call does succeed when the channel is the map's entry for its
  fd and has an element in the event vector (as every channel added by \<open>updateChannel\<close>
  has); on a deleted channel that is the map's entry it succeeds and sets the index back to
  \<open>kAdded\<close>; \<open>removeChannel\<close> of a registered channel with no interest erases the entry and
  sets the index to \<open>kNew\<close>.
\<close>

theorem poller_invariant:
  assumes inv: "poller_inv p st"
  shows
    "(\<forall>ok p' st'. updateChannel True ch p st = Inr (ok, p', st') \<longrightarrow>
        poller_inv p' st' \<and>
        (\<forall>c \<in> ran (m_channels p'). m_channels p' (m_fd (st' c)) = Some c \<and>
           (m_index (st' c) = kAdded \<or> m_index (st' c) = kDeleted))) \<and>
     (\<forall>p' st'. removeChannel True ch p st = Inr (p', st') \<longrightarrow>
        poller_inv p' st' \<and>
        (\<forall>c \<in> ran (m_channels p'). m_channels p' (m_fd (st' c)) = Some c \<and>
           (m_index (st' c) = kAdded \<or> m_index (st' c) = kDeleted))) \<and>
     (m_index (st ch) = kNew \<and> m_channels p (m_fd (st ch)) = None \<longrightarrow>
        (\<exists>p' st'. updateChannel True ch p st = Inr (True, p', st') \<and>
           m_channels p' = (m_channels p)(m_fd (st ch) \<mapsto> ch) \<and>
           st' = st(ch := (st ch)\<lparr>m_index := kAdded\<rparr>))) \<and>
     (m_index (st ch) = kNew \<and> m_channels p (m_fd (st ch)) = None \<longrightarrow>
        updateChannel True ch p st =
          Inr (True,
               p\<lparr>m_channels := (m_channels p)(m_fd (st ch) \<mapsto> ch),
                 m_events_vec := m_events_vec p @ [(m_events (st ch), ch)]\<rparr>,
               st(ch := (st ch)\<lparr>m_index := kAdded\<rparr>))) \<and>
     (m_index (st ch) = kAdded \<and> isNoneEvent (st ch) \<longrightarrow>
        (\<forall>p' st'. updateChannel True ch p st = Inr (True, p', st') \<longrightarrow>
           m_channels p' = m_channels p \<and> m_channels p' (m_fd (st ch)) = Some ch \<and>
           st' = st(ch := (st ch)\<lparr>m_index := kDeleted\<rparr>))) \<and>
     (m_index (st ch) = kAdded \<and> isNoneEvent (st ch) \<and>
      m_channels p (m_fd (st ch)) = Some ch \<and> ch \<in> snd ` set (m_events_vec p) \<longrightarrow>
        (\<exists>w. erase_first ch (m_events_vec p) = Some w \<and>
           updateChannel True ch p st =
             Inr (True, p\<lparr>m_events_vec := w\<rparr>, st(ch := (st ch)\<lparr>m_index := kDeleted\<rparr>)))) \<and>
     (m_index (st ch) = kDeleted \<and> m_channels p (m_fd (st ch)) = Some ch \<longrightarrow>
        updateChannel True ch p st =
          Inr (True, p\<lparr>m_events_vec := m_events_vec p @ [(m_events (st ch), ch)]\<rparr>,
               st(ch := (st ch)\<lparr>m_index := kAdded\<rparr>))) \<and>
     (m_channels p (m_fd (st ch)) = Some ch \<and> isNoneEvent (st ch) \<longrightarrow>
        removeChannel True ch p st =
          Inr (p\<lparr>m_channels := (m_channels p)(m_fd (st ch) := None)\<rparr>,
               st(ch := (st ch)\<lparr>m_index := kNew\<rparr>)))"
proof -
  have u: "\<forall>ok p' st'. updateChannel True ch p st = Inr (ok, p', st') \<longrightarrow>
        poller_inv p' st' \<and>
        (\<forall>c \<in> ran (m_channels p'). m_channels p' (m_fd (st' c)) = Some c \<and>
           (m_index (st' c) = kAdded \<or> m_index (st' c) = kDeleted))"
    using updateChannel_inv [OF inv] poller_inv_registered by blast
  have r: "\<forall>p' st'. removeChannel True ch p st = Inr (p', st') \<longrightarrow>
        poller_inv p' st' \<and>
        (\<forall>c \<in> ran (m_channels p'). m_channels p' (m_fd (st' c)) = Some c \<and>
           (m_index (st' c) = kAdded \<or> m_index (st' c) = kDeleted))"
    using removeChannel_inv [OF inv] poller_inv_registered by blast
  have n: "m_index (st ch) = kNew \<and> m_channels p (m_fd (st ch)) = None \<longrightarrow>
        (\<exists>p' st'. updateChannel True ch p st = Inr (True, p', st') \<and>
           m_channels p' = (m_channels p)(m_fd (st ch) \<mapsto> ch) \<and>
           st' = st(ch := (st ch)\<lparr>m_index := kAdded\<rparr>))"
    by (simp add: updateChannel_New)
  have n2: "m_index (st ch) = kNew \<and> m_channels p (m_fd (st ch)) = None \<longrightarrow>
        updateChannel True ch p st =
          Inr (True,
               p\<lparr>m_channels := (m_channels p)(m_fd (st ch) \<mapsto> ch),
                 m_events_vec := m_events_vec p @ [(m_events (st ch), ch)]\<rparr>,
               st(ch := (st ch)\<lparr>m_index := kAdded\<rparr>))"
    by (simp add: updateChannel_New)
  have a: "m_index (st ch) = kAdded \<and> isNoneEvent (st ch) \<longrightarrow>
        (\<forall>p' st'. updateChannel True ch p st = Inr (True, p', st') \<longrightarrow>
           m_channels p' = m_channels p \<and> m_channels p' (m_fd (st ch)) = Some ch \<and>
           st' = st(ch := (st ch)\<lparr>m_index := kDeleted\<rparr>))"
    by (auto simp: updateChannel_Added update_channels split: if_splits)
  have a2: "m_index (st ch) = kAdded \<and> isNoneEvent (st ch) \<and>
      m_channels p (m_fd (st ch)) = Some ch \<and> ch \<in> snd ` set (m_events_vec p) \<longrightarrow>
        (\<exists>w. erase_first ch (m_events_vec p) = Some w \<and>
           updateChannel True ch p st =
             Inr (True, p\<lparr>m_events_vec := w\<rparr>, st(ch := (st ch)\<lparr>m_index := kDeleted\<rparr>)))"
    using updateChannel_Added_to_Deleted [of st ch p] by blast
  have d: "m_index (st ch) = kDeleted \<and> m_channels p (m_fd (st ch)) = Some ch \<longrightarrow>
        updateChannel True ch p st =
          Inr (True, p\<lparr>m_events_vec := m_events_vec p @ [(m_events (st ch), ch)]\<rparr>,
               st(ch := (st ch)\<lparr>m_index := kAdded\<rparr>))"
    by (simp add: updateChannel_Deleted)
  have e: "m_channels p (m_fd (st ch)) = Some ch \<and> isNoneEvent (st ch) \<longrightarrow>
        removeChannel True ch p st =
          Inr (p\<lparr>m_channels := (m_channels p)(m_fd (st ch) := None)\<rparr>,
               st(ch := (st ch)\<lparr>m_index := kNew\<rparr>))"
    by (simp add: removeChannel_eq)
  from u r n n2 a a2 d e show ?thesis by blast
qed


theorem poller_invariant_witness:
  "poller_inv \<lparr>m_channels = Map.empty, m_events_vec = []\<rparr> (\<lambda>_. Channel_new 5) \<and>
   updateChannel True 16 \<lparr>m_channels = Map.empty, m_events_vec = []\<rparr> (\<lambda>_. Channel_new 5)
     = Inr (True, \<lparr>m_channels = [5 \<mapsto> 16], m_events_vec = [(0, 16)]\<rparr>,
            (\<lambda>_. Channel_new 5)(16 := (Channel_new 5)\<lparr>m_index := kAdded\<rparr>)) \<and>
   poller_inv \<lparr>m_channels = [5 \<mapsto> 16], m_events_vec = [(0, 16)]\<rparr>
     ((\<lambda>_. Channel_new 5)(16 := (Channel_new 5)\<lparr>m_index := kAdded\<rparr>)) \<and>
   updateChannel True 16 \<lparr>m_channels = [5 \<mapsto> 16], m_events_vec = [(0, 16)]\<rparr>
       ((\<lambda>_. Channel_new 5)(16 := (Channel_new 5)\<lparr>m_index := kAdded\<rparr>))
     = Inr (True, \<lparr>m_channels = [5 \<mapsto> 16], m_events_vec = []\<rparr>,
            (\<lambda>_. Channel_new 5)(16 := (Channel_new 5)\<lparr>m_index := kDeleted\<rparr>)) \<and>
   poller_inv \<lparr>m_channels = [5 \<mapsto> 16], m_events_vec = []\<rparr>
     ((\<lambda>_. Channel_new 5)(16 := (Channel_new 5)\<lparr>m_index := kDeleted\<rparr>)) \<and>
   updateChannel True 16 \<lparr>m_channels = [5 \<mapsto> 16], m_events_vec = []\<rparr>
       ((\<lambda>_. Channel_new 5)(16 := (Channel_new 5)\<lparr>m_index := kDeleted\<rparr>))
     = Inr (True, \<lparr>m_channels = [5 \<mapsto> 16], m_events_vec = [(0, 16)]\<rparr>,
            (\<lambda>_. Channel_new 5)(16 := (Channel_new 5)\<lparr>m_index := kAdded\<rparr>)) \<and>
   removeChannel True 16 \<lparr>m_channels = [5 \<mapsto> 16], m_events_vec = []\<rparr>
       ((\<lambda>_. Channel_new 5)(16 := (Channel_new 5)\<lparr>m_index := kDeleted\<rparr>))
     = Inr (\<lparr>m_channels = Map.empty, m_events_vec = []\<rparr>,
            (\<lambda>_. Channel_new 5)(16 := (Channel_new 5)\<lparr>m_index := kNew\<rparr>)) \<and>
   poller_inv \<lparr>m_channels = Map.empty, m_events_vec = []\<rparr>
     ((\<lambda>_. Channel_new 5)(16 := (Channel_new 5)\<lparr>m_index := kNew\<rparr>))"
proof -
  let ?p0 = "\<lparr>m_channels = Map.empty, m_events_vec = []\<rparr>"
  let ?st0 = "\<lambda>_::addr. Channel_new 5"
  let ?p1 = "\<lparr>m_channels = [5 \<mapsto> 16], m_events_vec = [(0, 16)]\<rparr>"
  let ?st1 = "?st0(16 := (Channel_new 5)\<lparr>m_index := kAdded\<rparr>)"
  let ?p2 = "\<lparr>m_channels = [5 \<mapsto> 16], m_events_vec = []\<rparr>"
  let ?st2 = "?st0(16 := (Channel_new 5)\<lparr>m_index := kDeleted\<rparr>)"
  let ?st3 = "?st0(16 := (Channel_new 5)\<lparr>m_index := kNew\<rparr>)"
  have i0: "poller_inv ?p0 ?st0" by (rule poller_inv_empty)
  have h0: "m_index (?st0 16) = kNew \<and> m_channels ?p0 (m_fd (?st0 16)) = None"
    by (simp add: Channel_new_def kNew_def)
  from poller_invariant [OF i0, of 16] h0
  have "updateChannel True 16 ?p0 ?st0 =
      Inr (True,
           ?p0\<lparr>m_channels := (m_channels ?p0)(m_fd (?st0 16) \<mapsto> 16),
             m_events_vec := m_events_vec ?p0 @ [(m_events (?st0 16), 16)]\<rparr>,
           ?st0(16 := (?st0 16)\<lparr>m_index := kAdded\<rparr>))"
    by blast
  then have u1: "updateChannel True 16 ?p0 ?st0 = Inr (True, ?p1, ?st1)"
    by (simp add: Channel_new_def)
  from poller_invariant [OF i0, of 16] u1 have i1: "poller_inv ?p1 ?st1" by blast
  have h1: "m_index (?st1 16) = kAdded \<and> isNoneEvent (?st1 16) \<and>
      m_channels ?p1 (m_fd (?st1 16)) = Some 16 \<and> 16 \<in> snd ` set (m_events_vec ?p1)"
    by (simp add: Channel_new_def isNoneEvent_def kNoneEvent_def)
  from poller_invariant [OF i1, of 16] h1
  obtain w where w: "erase_first 16 (m_events_vec ?p1) = Some w"
    and u2': "updateChannel True 16 ?p1 ?st1 =
      Inr (True, ?p1\<lparr>m_events_vec := w\<rparr>, ?st1(16 := (?st1 16)\<lparr>m_index := kDeleted\<rparr>))"
    by blast
  from w have "w = []" by simp
  with u2' have u2: "updateChannel True 16 ?p1 ?st1 = Inr (True, ?p2, ?st2)"
    by simp
  from poller_invariant [OF i1, of 16] u2 have i2: "poller_inv ?p2 ?st2" by blast
  have h2: "m_index (?st2 16) = kDeleted \<and> m_channels ?p2 (m_fd (?st2 16)) = Some 16"
    by (simp add: Channel_new_def)
  from poller_invariant [OF i2, of 16] h2
  have "updateChannel True 16 ?p2 ?st2 =
      Inr (True, ?p2\<lparr>m_events_vec := m_events_vec ?p2 @ [(m_events (?st2 16), 16)]\<rparr>,
           ?st2(16 := (?st2 16)\<lparr>m_index := kAdded\<rparr>))"
    by blast
  then have u3: "updateChannel True 16 ?p2 ?st2 = Inr (True, ?p1, ?st1)"
    by (simp add: Channel_new_def)
  have h3: "m_channels ?p2 (m_fd (?st2 16)) = Some 16 \<and> isNoneEvent (?st2 16)"
    by (simp add: Channel_new_def isNoneEvent_def kNoneEvent_def)
  from poller_invariant [OF i2, of 16] h3
  have "removeChannel True 16 ?p2 ?st2 =
      Inr (?p2\<lparr>m_channels := (m_channels ?p2)(m_fd (?st2 16) := None)\<rparr>,
           ?st2(16 := (?st2 16)\<lparr>m_index := kNew\<rparr>))"
    by blast
  then have r: "removeChannel True 16 ?p2 ?st2 = Inr (?p0, ?st3)"
    by (simp add: Channel_new_def)
  from poller_invariant [OF i2, of 16] r have i3: "poller_inv ?p0 ?st3" by blast
  from i0 u1 i1 u2 i2 u3 r i3 show ?thesis by blast
qed

text \<open>
  C6, as claimed: each of the three programming errors aborts the process. Counterexample:
  \<open>updateChannel\<close> on a channel whose index is \<open>kNew\<close> while its fd 5 is in the map returns
  \<open>false\<close>, and \<open>Channel::remove\<close> on a channel with interest 3 returns; neither aborts.
\<close>

theorem programming_errors_do_not_all_abort:
  "updateChannel True 16 \<lparr>m_channels = [5 \<mapsto> 32], m_events_vec = [(0, 32)]\<rparr> (\<lambda>_. Channel_new 5)
     \<noteq> Inl Abort \<and>
   map_sum id fst
     (updateChannel True 16 \<lparr>m_channels = [5 \<mapsto> 32], m_events_vec = [(0, 32)]\<rparr> (\<lambda>_. Channel_new 5))
     = Inr False \<and>
   Channel_remove True 16 \<lparr>m_channels = [5 \<mapsto> 16], m_events_vec = [(3, 16)]\<rparr>
       (\<lambda>_. (Channel_new 5)\<lparr>m_events := 3, m_index := 1\<rparr>) \<noteq> Inl Abort"
  by (simp add: updateChannel_def Channel_remove_def Channel_new_def kNew_def isNoneEvent_def
      kNoneEvent_def Let_def)

text \<open>
  C6, amended: a call from a thread other than the loop's to a function that starts with
  \<open>assertInLoopThread\<close> (\<open>updateChannel\<close>, \<open>removeChannel\<close>, \<open>doTimer\<close>, \<open>addTimerInLoop\<close>,
  \<open>sendInLoop\<close>, \<open>handleRead\<close>) aborts; \<open>updateChannel\<close> on a channel whose index is \<open>kNew\<close>
  while its fd is in the map returns \<open>false\<close> and changes nothing; \<open>Channel::remove\<close> while
  the interest mask is not none returns and changes nothing, in any thread.
\<close>

theorem programming_errors:
  "updateChannel False ch p st = Inl Abort \<and>
   removeChannel False ch p st = Inl Abort \<and>
   (isNoneEvent (st ch) \<longrightarrow> Channel_remove False ch p st = Inl Abort) \<and>
   doTimer False now q = Inl Abort \<and>
   addTimerInLoop False tp q = Inl Abort \<and>
   (\<not> isInLoopThread env \<longrightarrow> sendInLoop env conn data = Inl Abort \<and>
      handleRead env conn ts = Inl Abort) \<and>
   (m_index (st ch) = kNew \<and> m_channels p (m_fd (st ch)) \<noteq> None \<longrightarrow>
      updateChannel True ch p st = Inr (False, p, st)) \<and>
   (\<not> isNoneEvent (st ch) \<longrightarrow> Channel_remove inLoopThread ch p st = Inr (p, st))"
  by (simp add: updateChannel_New updateChannel_wrong_thread removeChannel_def Channel_remove_def
      doTimer_def addTimerInLoop_def sendInLoop_def handleRead_def)

theorem programming_errors_witness:
  "updateChannel True 16 \<lparr>m_channels = [5 \<mapsto> 32], m_events_vec = [(0, 32)]\<rparr> (\<lambda>_. Channel_new 5)
     = Inr (False, \<lparr>m_channels = [5 \<mapsto> 32], m_events_vec = [(0, 32)]\<rparr>, \<lambda>_. Channel_new 5) \<and>
   Channel_remove True 16 \<lparr>m_channels = [5 \<mapsto> 16], m_events_vec = [(3, 16)]\<rparr>
       (\<lambda>_. (Channel_new 5)\<lparr>m_events := 3, m_index := 1\<rparr>)
     = Inr (\<lparr>m_channels = [5 \<mapsto> 16], m_events_vec = [(3, 16)]\<rparr>,
            \<lambda>_. (Channel_new 5)\<lparr>m_events := 3, m_index := 1\<rparr>) \<and>
   sendInLoop \<lparr>isInLoopThread = False, write_result = 0, write_errno = 0, read_result = ReadBytes []\<rparr>
       (TcpConnection_new 7) [] = Inl Abort"
  using programming_errors [where ch = 16
      and p = "\<lparr>m_channels = [5 \<mapsto> 32], m_events_vec = [(0, 32)]\<rparr>"
      and st = "\<lambda>_. Channel_new 5"]
    programming_errors [where ch = 16
      and p = "\<lparr>m_channels = [5 \<mapsto> 16], m_events_vec = [(3, 16)]\<rparr>"
      and st = "\<lambda>_. (Channel_new 5)\<lparr>m_events := 3, m_index := 1\<rparr>"
      and env = "\<lparr>isInLoopThread = False, write_result = 0, write_errno = 0, read_result = ReadBytes []\<rparr>"
      and conn = "TcpConnection_new 7" and data = "[]" and inLoopThread = True]
  by (simp add: Channel_new_def kNew_def isNoneEvent_def kNoneEvent_def)

section \<open>TcpConnection: sending, reading and closing\<close>

lemma size_t_sub_zero:
  assumes "0 \<le> n" "n < 2 ^ 31"
  shows "(size_t_sub 0 n = 0) = (n = 0)"
proof -
  from assms have "n mod 2 ^ 64 = n" by simp
  then show ?thesis
    using assms by (auto simp: size_t_sub_def zmod_zminus1_eq_if)
qed

lemma isWriting_enableWriting: "isWriting (fst (enableWriting ch))"
  by (simp add: isWriting_def enableWriting_def kWriteEvent_def XPOLLOUT_def Let_def)

lemma sendInLoop_empty:
  assumes "isInLoopThread env" "m_state c \<noteq> kDisconnected" "write_result env < 2 ^ 31"
  shows "sendInLoop env c [] =
     Inr (c, if direct_write c
             then SocketsWrite (m_fd (m_channel c)) [] #
                  (if write_result env = 0 \<and> m_writeCompleteCallback c
                   then [QueueInLoop WriteCompleteTask] else [])
             else [])"
proof (cases "direct_write c \<and> 0 \<le> write_result env")
  case True
  then have z: "(size_t_sub 0 (write_result env) = 0) = (write_result env = 0)"
    using assms(3) by (simp add: size_t_sub_zero)
  show ?thesis
  proof (cases "write_result env = 0")
    case True
    with z \<open>direct_write c \<and> 0 \<le> write_result env\<close> assms show ?thesis
      by (simp add: sendInLoop_def remaining_of_def nwrote_of_def faultError_of_def Let_def)
  next
    case False
    with z have "0 < size_t_sub 0 (write_result env)" by simp
    with False \<open>direct_write c \<and> 0 \<le> write_result env\<close> assms show ?thesis
      by (simp add: sendInLoop_def remaining_of_def nwrote_of_def faultError_of_def Let_def)
  qed
next
  case False
  with assms show ?thesis
    by (auto simp: sendInLoop_def remaining_of_def nwrote_of_def faultError_of_def Let_def)
qed


lemmas conn_defs = TcpConnection_new_def Channel_new_def direct_write_def isWriting_def
  readableBytes_def kWriteEvent_def kReadEvent_def kNoneEvent_def XPOLLIN_def XPOLLPRI_def
  XPOLLOUT_def

text \<open>
  C3, as claimed: \<open>send\<close> of zero bytes on a connected connection never queues the
  write-complete callback. Counterexample: a connected connection with a write-complete
  callback, an empty output buffer and a channel that is not writing; the zero-length
  \<open>write\<close> returns 0 and the callback is queued.
\<close>

theorem send_zero_length_queues_write_complete:
  "send_raw \<lparr>isInLoopThread = True, write_result = 0, write_errno = 0, read_result = ReadBytes []\<rparr>
     ((TcpConnection_new 7)\<lparr>m_state := kConnected, m_writeCompleteCallback := True\<rparr>) []
   = Inr ((TcpConnection_new 7)\<lparr>m_state := kConnected, m_writeCompleteCallback := True\<rparr>,
          [SocketsWrite 7 [], QueueInLoop WriteCompleteTask])"
  by (simp add: send_raw_def sendInLoop_def remaining_of_def nwrote_of_def faultError_of_def
      size_t_sub_def conn_defs Let_def)

text \<open>
  C3, amended: \<open>send\<close> of zero bytes on a connected connection writes no byte and leaves
  the connection (output buffer, state, interest) as it was, and queues no high-water-mark
  callback. In the loop's thread its only system call is a \<open>write\<close> of length 0, made when
  the channel is not writing and the output buffer is empty, and the write-complete
  callback is queued exactly when that \<open>write\<close> is made, returns 0 and a write-complete
  callback is set; in another thread \<open>send\<close> hands the loop the closure that calls
  \<open>sendInLoop\<close>, which does the same there. All three overloads agree. (\<open>write_result\<close>
  is an \<open>int32_t\<close>.)
\<close>

theorem send_zero_length:
  assumes "m_state c = kConnected" "write_result env < 2 ^ 31"
  shows "send_raw env c [] =
           (if isInLoopThread env
            then Inr (c, if direct_write c
                   then SocketsWrite (m_fd (m_channel c)) [] #
                        (if write_result env = 0 \<and> m_writeCompleteCallback c
                         then [QueueInLoop WriteCompleteTask] else [])
                   else [])
            else Inr (c, [RunInLoop (SendInLoopTask [])])) \<and>
         send_string env c [] = send_raw env c [] \<and>
         send_buffer env c [] =
           (if isInLoopThread env
            then Inr (c, [], if direct_write c
                   then SocketsWrite (m_fd (m_channel c)) [] #
                        (if write_result env = 0 \<and> m_writeCompleteCallback c
                         then [QueueInLoop WriteCompleteTask] else [])
                   else [])
            else Inr (c, [], [RunInLoop (SendInLoopTask [])])) \<and>
         (isInLoopThread env \<longrightarrow>
            sendInLoop env c [] =
              Inr (c, if direct_write c
                   then SocketsWrite (m_fd (m_channel c)) [] #
                        (if write_result env = 0 \<and> m_writeCompleteCallback c
                         then [QueueInLoop WriteCompleteTask] else [])
                   else []) \<and>
            (\<forall>c' effs. sendInLoop env c [] = Inr (c', effs) \<longrightarrow>
               m_outputBuffer c' = m_outputBuffer c \<and> high_water_tasks effs = [] \<and>
               concat (written effs) = []))"
proof (cases "isInLoopThread env")
  case True
  with assms have e: "sendInLoop env c [] =
     Inr (c, if direct_write c
             then SocketsWrite (m_fd (m_channel c)) [] #
                  (if write_result env = 0 \<and> m_writeCompleteCallback c
                   then [QueueInLoop WriteCompleteTask] else [])
             else [])"
    by (simp add: sendInLoop_empty)
  with True assms(1) show ?thesis
    by (simp add: send_raw_def send_string_def send_buffer_def sendInLoop_string_def)
next
  case False
  with assms(1) show ?thesis
    by (simp add: send_raw_def send_string_def send_buffer_def sendInLoop_string_def)
qed

theorem send_zero_length_witness:
  "send_raw \<lparr>isInLoopThread = True, write_result = 0, write_errno = 0, read_result = ReadBytes []\<rparr>
     ((TcpConnection_new 7)\<lparr>m_state := kConnected\<rparr>) []
   = Inr ((TcpConnection_new 7)\<lparr>m_state := kConnected\<rparr>, [SocketsWrite 7 []])"
  using send_zero_length [of "(TcpConnection_new 7)\<lparr>m_state := kConnected\<rparr>"
      "\<lparr>isInLoopThread = True, write_result = 0, write_errno = 0, read_result = ReadBytes []\<rparr>"]
  by (simp add: conn_defs)

text \<open>
  C4, as claimed: the high-water-mark callback is queued if and only if the threshold is
  crossed. Counterexample: no high-water-mark callback is set (as after construction), the
  mark is 4, the output buffer is empty and \<open>write\<close> fails with \<open>EWOULDBLOCK\<close>; the 4 bytes
  cross the threshold and nothing is queued.
\<close>

theorem high_water_mark_needs_callback:
  "sendInLoop \<lparr>isInLoopThread = True, write_result = - 1, write_errno = 11, read_result = ReadBytes []\<rparr>
     ((TcpConnection_new 7)\<lparr>m_state := kConnected, m_highWaterMark := 4\<rparr>) [1, 2, 3, 4]
   = Inr ((TcpConnection_new 7)\<lparr>m_state := kConnected, m_highWaterMark := 4,
        m_outputBuffer := [1, 2, 3, 4],
        m_channel := (m_channel (TcpConnection_new 7))\<lparr>m_events := 4\<rparr>\<rparr>,
        [SocketsWrite 7 [1, 2, 3, 4], ChannelUpdate 4])"
  by (simp add: sendInLoop_def remaining_of_def nwrote_of_def faultError_of_def
      size_t_sub_def enableWriting_def EWOULDBLOCK_def conn_defs Let_def)


lemma high_water_tasks_append:
  "high_water_tasks (xs @ ys) = high_water_tasks xs @ high_water_tasks ys"
  by (induction xs rule: high_water_tasks.induct) simp_all

lemma sendInLoop_remainder:
  assumes "isInLoopThread env" "m_state c \<noteq> kDisconnected" "\<not> faultError_of env c"
    "0 < remaining_of env c (length data)" "remaining_of env c (length data) \<le> length data"
  shows "sendInLoop env c data =
     Inr (c\<lparr>m_outputBuffer := m_outputBuffer c @
                take (remaining_of env c (length data)) (drop (nat (nwrote_of env c)) data),
             m_channel := (if isWriting (m_channel c) then m_channel c
                           else fst (enableWriting (m_channel c)))\<rparr>,
          (if direct_write c then [SocketsWrite (m_fd (m_channel c)) data] else []) @
          (if readableBytes (m_outputBuffer c) < m_highWaterMark c \<and>
              m_highWaterMark c \<le> readableBytes (m_outputBuffer c) + remaining_of env c (length data) \<and>
              m_highWaterMarkCallback c
           then [QueueInLoop (HighWaterMarkTask
                   (readableBytes (m_outputBuffer c) + remaining_of env c (length data)))]
           else []) @
          (if isWriting (m_channel c) then [] else snd (enableWriting (m_channel c))))"
  using assms
  by (cases "isWriting (m_channel c)"; cases "direct_write c")
     (simp_all add: sendInLoop_def Let_def)

lemma high_water_tasks_enableWriting: "high_water_tasks (snd (enableWriting ch)) = []"
  by (simp add: enableWriting_def Let_def)

text \<open>
  C4, amended: when a nonempty remainder survives the direct write without a fatal error,
  the high-water-mark callback is queued (once, with \<open>oldLen + remaining\<close>) if and only if
  \<open>oldLen < highWaterMark \<le> oldLen + remaining\<close> and a high-water-mark callback is set; in
  particular, with a callback set, appending exactly \<open>highWaterMark\<close> bytes to an empty
  output buffer queues it exactly once; the remainder is appended to the output buffer and
  write interest is enabled.
\<close>

theorem sendInLoop_high_water_mark:
  assumes "isInLoopThread env" "m_state c \<noteq> kDisconnected" "\<not> faultError_of env c"
    "0 < remaining_of env c (length data)" "remaining_of env c (length data) \<le> length data"
  shows "\<exists>c' effs. sendInLoop env c data = Inr (c', effs) \<and>
      high_water_tasks effs =
        (if readableBytes (m_outputBuffer c) < m_highWaterMark c \<and>
            m_highWaterMark c \<le> readableBytes (m_outputBuffer c) + remaining_of env c (length data) \<and>
            m_highWaterMarkCallback c
         then [readableBytes (m_outputBuffer c) + remaining_of env c (length data)] else []) \<and>
      (m_outputBuffer c = [] \<and> remaining_of env c (length data) = m_highWaterMark c \<and>
         m_highWaterMarkCallback c \<longrightarrow> high_water_tasks effs = [m_highWaterMark c]) \<and>
      m_outputBuffer c' = m_outputBuffer c @
         take (remaining_of env c (length data)) (drop (nat (nwrote_of env c)) data) \<and>
      isWriting (m_channel c')"
proof -
  have w: "isWriting (if isWriting (m_channel c) then m_channel c
                      else fst (enableWriting (m_channel c)))"
    by (simp add: isWriting_enableWriting)
  show ?thesis
    unfolding sendInLoop_remainder [OF assms]
    using assms(4) w
    by (auto simp: high_water_tasks_append high_water_tasks_enableWriting readableBytes_def)
qed

theorem sendInLoop_high_water_mark_witness:
  "\<exists>c' effs.
     sendInLoop \<lparr>isInLoopThread = True, write_result = - 1, write_errno = 11, read_result = ReadBytes []\<rparr>
       ((TcpConnection_new 7)\<lparr>m_state := kConnected, m_highWaterMark := 4,
          m_highWaterMarkCallback := True\<rparr>) [1, 2, 3, 4] = Inr (c', effs) \<and>
     high_water_tasks effs = [4] \<and> m_outputBuffer c' = [1, 2, 3, 4] \<and> isWriting (m_channel c')"
proof -
  let ?env = "\<lparr>isInLoopThread = True, write_result = - 1, write_errno = 11, read_result = ReadBytes []\<rparr>"
  let ?c = "(TcpConnection_new 7)\<lparr>m_state := kConnected, m_highWaterMark := 4,
          m_highWaterMarkCallback := True\<rparr>"
  let ?data = "[1, 2, 3, 4] :: ByteBuffer"
  have r: "remaining_of ?env ?c (length ?data) = 4"
    by (simp add: remaining_of_def)
  have n: "nwrote_of ?env ?c = 0"
    by (simp add: nwrote_of_def)
  have h: "isInLoopThread ?env" "m_state ?c \<noteq> kDisconnected" "\<not> faultError_of ?env ?c"
    "0 < remaining_of ?env ?c (length ?data)" "remaining_of ?env ?c (length ?data) \<le> length ?data"
    by (simp_all add: remaining_of_def faultError_of_def EWOULDBLOCK_def)
  from sendInLoop_high_water_mark [OF h]
  obtain c' effs where s: "sendInLoop ?env ?c ?data = Inr (c', effs)"
    and t: "high_water_tasks effs =
        (if readableBytes (m_outputBuffer ?c) < m_highWaterMark ?c \<and>
            m_highWaterMark ?c \<le> readableBytes (m_outputBuffer ?c) + remaining_of ?env ?c (length ?data) \<and>
            m_highWaterMarkCallback ?c
         then [readableBytes (m_outputBuffer ?c) + remaining_of ?env ?c (length ?data)] else [])"
    and b: "m_outputBuffer c' = m_outputBuffer ?c @
         take (remaining_of ?env ?c (length ?data)) (drop (nat (nwrote_of ?env ?c)) ?data)"
    and w: "isWriting (m_channel c')"
    by blast
  from t have "high_water_tasks effs = [4]"
    unfolding r by (simp add: TcpConnection_new_def readableBytes_def)
  moreover from b have "m_outputBuffer c' = [1, 2, 3, 4]"
    unfolding r n by (simp add: TcpConnection_new_def)
  ultimately show ?thesis using s w by blast
qed

lemma handleClose_disconnected: "m_state c = kDisconnected \<Longrightarrow> handleClose env c = Inr (c, [])"
  by (simp add: handleClose_def)

lemma handleClose_state:
  "handleClose env c = Inr (c', es) \<Longrightarrow> m_state c' = kDisconnected"
  by (auto simp: handleClose_def Let_def split: if_splits)

text \<open>
  C8. \<open>handleClose\<close> is idempotent: in state \<open>kDisconnected\<close> it changes nothing and has no
  effect (no interest change, no callback), in any thread; a call that returns leaves the
  state \<open>kDisconnected\<close>, so a second call is such a call, and two calls in a row are one.
\<close>

theorem handleClose_idempotent:
  "(m_state c = kDisconnected \<longrightarrow> handleClose env c = Inr (c, [])) \<and>
   (\<forall>c' es. handleClose env c = Inr (c', es) \<longrightarrow>
      m_state c' = kDisconnected \<and> handleClose env' c' = Inr (c', []) \<and>
      and_then (handleClose env c) (handleClose env') = handleClose env c)"
proof -
  have "handleClose env' c' = Inr (c', []) \<and>
        and_then (handleClose env c) (handleClose env') = handleClose env c"
    if h: "handleClose env c = Inr (c', es)" for c' es
  proof -
    from h have "m_state c' = kDisconnected" by (rule handleClose_state)
    then have "handleClose env' c' = Inr (c', [])" by (rule handleClose_disconnected)
    with h show ?thesis by (simp add: and_then_def)
  qed
  then show ?thesis
    using handleClose_state handleClose_disconnected by blast
qed

theorem handleClose_idempotent_witness:
  "handleClose \<lparr>isInLoopThread = True, write_result = 0, write_errno = 0, read_result = ReadBytes []\<rparr>
     ((TcpConnection_new 7)\<lparr>m_state := kConnected, m_connectionCallback := True,
        m_closeCallback_conn := True\<rparr>)
   = Inr ((TcpConnection_new 7)\<lparr>m_state := kDisconnected, m_connectionCallback := True,
        m_closeCallback_conn := True\<rparr>,
        [ChannelUpdate 0, InvokeConnectionCallback, InvokeCloseCallback]) \<and>
   handleClose \<lparr>isInLoopThread = False, write_result = 0, write_errno = 0, read_result = ReadBytes []\<rparr>
     ((TcpConnection_new 7)\<lparr>m_state := kDisconnected, m_connectionCallback := True,
        m_closeCallback_conn := True\<rparr>)
   = Inr ((TcpConnection_new 7)\<lparr>m_state := kDisconnected, m_connectionCallback := True,
        m_closeCallback_conn := True\<rparr>, [])"
proof -
  let ?env = "\<lparr>isInLoopThread = True, write_result = 0, write_errno = 0, read_result = ReadBytes []\<rparr>"
  let ?env' = "\<lparr>isInLoopThread = False, write_result = 0, write_errno = 0, read_result = ReadBytes []\<rparr>"
  let ?c = "(TcpConnection_new 7)\<lparr>m_state := kConnected, m_connectionCallback := True,
        m_closeCallback_conn := True\<rparr>"
  let ?c' = "(TcpConnection_new 7)\<lparr>m_state := kDisconnected, m_connectionCallback := True,
        m_closeCallback_conn := True\<rparr>"
  have 1: "handleClose ?env ?c =
      Inr (?c', [ChannelUpdate 0, InvokeConnectionCallback, InvokeCloseCallback])"
    by (simp add: handleClose_def disableAll_def conn_defs Let_def)
  from handleClose_idempotent [of ?c ?env ?env'] 1
  have "handleClose ?env' ?c' = Inr (?c', [])" by blast
  with 1 show ?thesis by simp
qed


lemma and_then_Inr_handleClose:
  "and_then (Inr (c, es)) (handleClose env) =
     (case handleClose env c of Inl e \<Rightarrow> Inl e | Inr r \<Rightarrow> Inr (fst r, es @ snd r))"
  by (simp add: and_then_def split: sum.splits)

lemma and_then_Inr_handleError:
  "and_then (Inr (c, es)) (handleError env) =
     (case handleError env c of Inl e \<Rightarrow> Inl e | Inr r \<Rightarrow> Inr (fst r, es @ snd r))"
  by (simp add: and_then_def split: sum.splits)

lemma handleError_then_handleClose:
  "and_then (handleError env c) (handleClose env') = handleError env c"
proof (cases "handleClose env c")
  case (Inl e)
  then show ?thesis by (simp add: handleError_def and_then_def)
next
  case (Inr r)
  then have "handleClose env c = Inr (fst r, snd r)" by simp
  then have "m_state (fst r) = kDisconnected" by (rule handleClose_state)
  then have "handleClose env' (fst r) = Inr (fst r, [])" by (rule handleClose_disconnected)
  with Inr show ?thesis by (simp add: handleError_def and_then_def)
qed

text \<open>
  C9. \<open>handleRead\<close> calls \<open>readFd\<close> on the channel's fd and dispatches on its result \<open>n\<close>:
  for \<open>n > 0\<close> it invokes the message callback with the input buffer and the receive time;
  for \<open>n = 0\<close> it runs \<open>handleClose\<close>; for \<open>n < 0\<close> it runs \<open>handleError\<close>, which reads the
  socket error and then runs \<open>handleClose\<close> (running \<open>handleClose\<close> once more after it
  changes nothing).
\<close>

theorem handleRead_dispatch:
  assumes "isInLoopThread env"
    and "n = readFd_n (read_result env)"
    and "c1 = c\<lparr>m_inputBuffer := readFd_buffer (read_result env) (m_inputBuffer c)\<rparr>"
    and "fd = m_fd (m_channel c)"
  shows "(0 < n \<longrightarrow> handleRead env c ts =
            (if m_messageCallback c
             then Inr (c1, [ReadFd fd, InvokeMessageCallback (m_inputBuffer c1) ts])
             else Inl BadFunctionCall)) \<and>
         (n = 0 \<longrightarrow> handleRead env c ts = and_then (Inr (c1, [ReadFd fd])) (handleClose env)) \<and>
         (n < 0 \<longrightarrow>
            handleRead env c ts = and_then (Inr (c1, [ReadFd fd])) (handleError env) \<and>
            handleError env c1 = and_then (Inr (c1, [GetSocketError fd])) (handleClose env) \<and>
            and_then (handleError env c1) (handleClose env) = handleError env c1)"
proof -
  have pos: "0 < n \<longrightarrow> handleRead env c ts =
            (if m_messageCallback c
             then Inr (c1, [ReadFd fd, InvokeMessageCallback (m_inputBuffer c1) ts])
             else Inl BadFunctionCall)"
    using assms by (simp add: handleRead_def Let_def)
  have zero: "n = 0 \<longrightarrow> handleRead env c ts = and_then (Inr (c1, [ReadFd fd])) (handleClose env)"
    using assms by (simp add: handleRead_def Let_def and_then_Inr_handleClose split: sum.splits)
  have neg: "n < 0 \<longrightarrow> handleRead env c ts = and_then (Inr (c1, [ReadFd fd])) (handleError env)"
    using assms by (simp add: handleRead_def Let_def and_then_Inr_handleError split: sum.splits)
  have err: "handleError env c1 = and_then (Inr (c1, [GetSocketError fd])) (handleClose env)"
    using assms(3,4) by (simp add: handleError_def and_then_Inr_handleClose disableAll_def handleClose_def Let_def split: sum.splits)
  from pos zero neg err handleError_then_handleClose [of env c1 env] show ?thesis
    by blast
qed

theorem handleRead_dispatch_witness:
  "handleRead \<lparr>isInLoopThread = True, write_result = 0, write_errno = 0, read_result = ReadBytes [104, 105]\<rparr>
     ((TcpConnection_new 7)\<lparr>m_state := kConnected, m_messageCallback := True\<rparr>) 42
   = Inr ((TcpConnection_new 7)\<lparr>m_state := kConnected, m_messageCallback := True,
            m_inputBuffer := [104, 105]\<rparr>,
          [ReadFd 7, InvokeMessageCallback [104, 105] 42]) \<and>
   handleRead \<lparr>isInLoopThread = True, write_result = 0, write_errno = 0, read_result = ReadFailed 104\<rparr>
     ((TcpConnection_new 7)\<lparr>m_state := kConnected, m_connectionCallback := True,
        m_closeCallback_conn := True\<rparr>) 42
   = Inr ((TcpConnection_new 7)\<lparr>m_state := kDisconnected, m_connectionCallback := True,
            m_closeCallback_conn := True\<rparr>,
          [ReadFd 7, GetSocketError 7, ChannelUpdate 0, InvokeConnectionCallback,
           InvokeCloseCallback])"
proof -
  let ?e1 = "\<lparr>isInLoopThread = True, write_result = 0, write_errno = 0, read_result = ReadBytes [104, 105]\<rparr>"
  let ?c1 = "(TcpConnection_new 7)\<lparr>m_state := kConnected, m_messageCallback := True\<rparr>"
  let ?e2 = "\<lparr>isInLoopThread = True, write_result = 0, write_errno = 0, read_result = ReadFailed 104\<rparr>"
  let ?c2 = "(TcpConnection_new 7)\<lparr>m_state := kConnected, m_connectionCallback := True,
        m_closeCallback_conn := True\<rparr>"
  have a: "handleRead ?e1 ?c1 42 =
      Inr ((TcpConnection_new 7)\<lparr>m_state := kConnected, m_messageCallback := True,
            m_inputBuffer := [104, 105]\<rparr>,
          [ReadFd 7, InvokeMessageCallback [104, 105] 42])"
    using handleRead_dispatch [of ?e1 "readFd_n (read_result ?e1)" _ ?c1 _ 42, OF _ refl refl refl]
    by (simp add: readFd_n_def readFd_buffer_def conn_defs)
  have b: "handleRead ?e2 ?c2 42 =
      Inr ((TcpConnection_new 7)\<lparr>m_state := kDisconnected, m_connectionCallback := True,
            m_closeCallback_conn := True\<rparr>,
          [ReadFd 7, GetSocketError 7, ChannelUpdate 0, InvokeConnectionCallback,
           InvokeCloseCallback])"
    using handleRead_dispatch [of ?e2 "readFd_n (read_result ?e2)" _ ?c2 _ 42, OF _ refl refl refl]
    by (simp add: readFd_n_def readFd_buffer_def conn_defs and_then_def handleError_def
        handleClose_def disableAll_def Let_def)
  from a b show ?thesis by simp
qed

text \<open>
  C10. In every state other than \<open>kConnected\<close>, each of the three overloads of \<open>send\<close>
  returns with the connection unchanged and no effect: nothing written, nothing queued,
  no callback; the caller's buffer is left as it was.
\<close>

theorem send_not_connected:
  assumes "m_state c \<noteq> kConnected"
  shows "send_raw env c data = Inr (c, []) \<and> send_string env c data = Inr (c, []) \<and>
         send_buffer env c data = Inr (c, data, [])"
  using assms by (simp add: send_raw_def send_string_def send_buffer_def)

theorem send_not_connected_witness:
  "send_raw \<lparr>isInLoopThread = True, write_result = 3, write_errno = 0, read_result = ReadBytes []\<rparr>
     ((TcpConnection_new 7)\<lparr>m_state := kDisconnecting\<rparr>) [1, 2, 3]
     = Inr ((TcpConnection_new 7)\<lparr>m_state := kDisconnecting\<rparr>, []) \<and>
   send_buffer \<lparr>isInLoopThread = False, write_result = 3, write_errno = 0, read_result = ReadBytes []\<rparr>
     (TcpConnection_new 7) [1, 2, 3] = Inr (TcpConnection_new 7, [1, 2, 3], [])"
  using send_not_connected [of "(TcpConnection_new 7)\<lparr>m_state := kDisconnecting\<rparr>"
      "\<lparr>isInLoopThread = True, write_result = 3, write_errno = 0, read_result = ReadBytes []\<rparr>"
      "[1, 2, 3]"]
    send_not_connected [of "TcpConnection_new 7"
      "\<lparr>isInLoopThread = False, write_result = 3, write_errno = 0, read_result = ReadBytes []\<rparr>"
      "[1, 2, 3]"]
  by (simp add: TcpConnection_new_def)

end
